theory Spec2Isabelle
  imports Main "HOL-Library.Word" "HOL-Library.Signed_Division"
begin

section \<open>Machine types and error numbers\<close>

type_synonym u8 = "8 word"
type_synonym u16 = "16 word"
type_synonym u32 = "32 word"
type_synonym u64 = "64 word"

text \<open>The error numbers the two files return (negated in C, or wrapped by \<open>ERR_PTR\<close>).\<close>

datatype errno = EINVAL | ENOMEM | ENOENT | ENOSPC

section \<open>connection.c: CPort ids, connections, operation ids\<close>

text \<open>
  Constants of \<open>greybus.h\<close> that \<open>connection.c\<close> uses and that are not among the
  sources; they are parameters of the model.
\<close>

record kconfig =
  HOST_DEV_CPORT_ID_MAX :: nat
  CPORT_ID_BAD :: u16

text \<open>
  The kernel's \<open>U16_MAX\<close>, \<open>((u16)~0U)\<close>: the largest value of a \<open>u16\<close>, an
  \<open>int\<close> after the integer promotion of the \<open>%\<close> operator.
\<close>

definition U16_MAX :: int where
  "U16_MAX = 65535"

type_synonym conn_ptr = nat
type_synonym iface_ptr = nat

text \<open>
  \<open>struct gb_connection\<close>, with the fields \<open>connection.c\<close> touches. The back pointer
  \<open>hd\<close> is left out: the model has one host device, the \<open>interface->gmod->hd\<close> of
  every interface. \<open>op_cycle\<close> is an \<open>atomic_t\<close>, a 32-bit \<open>int\<close>.
\<close>

record gb_connection =
  hd_cport_id :: u16
  interface :: "iface_ptr option"
  interface_cport_id :: u16
  protocol :: nat
  operations :: "nat list"
  op_cycle :: u32

text \<open>What \<open>kzalloc\<close> returns: every field zero, every pointer null.\<close>

definition zeroed_connection :: gb_connection where
  "zeroed_connection =
     \<lparr>hd_cport_id = 0, interface = None, interface_cport_id = 0, protocol = 0,
      operations = [], op_cycle = 0\<rparr>"

text \<open>
  The host device: its id allocator \<open>cport_id_map\<close> (the set of ids in use), its list
  \<open>connections\<close>, the lists \<open>interface->connections\<close> of its interfaces, and the
  connection objects that are allocated (the store: \<open>None\<close> at an address that holds
  no connection).
\<close>

record greybus_host_device =
  cport_id_map :: "nat set"
  connections :: "conn_ptr list"
  interface_connections :: "iface_ptr \<Rightarrow> conn_ptr list"
  conn_mem :: "conn_ptr \<Rightarrow> gb_connection option"

definition hd_init :: greybus_host_device where
  "hd_init =
     \<lparr>cport_id_map = {}, connections = [], interface_connections = (\<lambda>_. []),
      conn_mem = (\<lambda>_. None)\<rparr>"

text \<open>
  Modelled from the spec: \<open>ida_simple_get\<close> and \<open>ida_simple_remove\<close> (the kernel's
  \<open>lib/idr.c\<close>) are not among the sources. Section 4.5: allocate "returns the
  lowest-numbered free id in \<open>[0, MAX)\<close>; fails with \<open>SpaceExhausted\<close> when none free";
  free "returns an id to the pool".
\<close>

definition ida_simple_get :: "nat set \<Rightarrow> nat \<Rightarrow> nat \<Rightarrow> (errno + nat) \<times> nat set" where
  "ida_simple_get ida start end' =
     (case filter (\<lambda>i. i \<notin> ida) [start..<end'] of
        [] \<Rightarrow> (Inl ENOSPC, ida)
      | i # _ \<Rightarrow> (Inr i, insert i ida))"

definition ida_simple_remove :: "nat set \<Rightarrow> nat \<Rightarrow> nat set" where
  "ida_simple_remove ida i = ida - {i}"

text \<open>
  \<open>hd_connection_hd_cport_id_alloc\<close>: the connection is passed by reference in C; the
  model returns it updated, with the host device.
\<close>

definition hd_connection_hd_cport_id_alloc ::
  "kconfig \<Rightarrow> gb_connection \<Rightarrow> greybus_host_device \<Rightarrow>
     bool \<times> gb_connection \<times> greybus_host_device" where
  "hd_connection_hd_cport_id_alloc cfg connection hdev =
     (case ida_simple_get (cport_id_map hdev) 0 (HOST_DEV_CPORT_ID_MAX cfg) of
        (Inl e, ida) \<Rightarrow> (False, connection, hdev\<lparr>cport_id_map := ida\<rparr>)
      | (Inr i, ida) \<Rightarrow>
          (True, connection\<lparr>hd_cport_id := of_nat i\<rparr>, hdev\<lparr>cport_id_map := ida\<rparr>))"

definition hd_connection_hd_cport_id_free ::
  "kconfig \<Rightarrow> gb_connection \<Rightarrow> greybus_host_device \<Rightarrow> gb_connection \<times> greybus_host_device" where
  "hd_connection_hd_cport_id_free cfg connection hdev =
     (connection\<lparr>hd_cport_id := CPORT_ID_BAD cfg\<rparr>,
      hdev\<lparr>cport_id_map := ida_simple_remove (cport_id_map hdev) (unat (hd_cport_id connection))\<rparr>)"

text \<open>
  \<open>gb_connection_create\<close>. The argument \<open>kzalloc\<close> is what the allocation of the
  connection returns: \<open>None\<close> when it fails, else the address of the new object.
\<close>

definition gb_connection_create ::
  "kconfig \<Rightarrow> conn_ptr option \<Rightarrow> iface_ptr \<Rightarrow> u16 \<Rightarrow> nat \<Rightarrow> greybus_host_device \<Rightarrow>
     conn_ptr option \<times> greybus_host_device" where
  "gb_connection_create cfg kzalloc iface cport_id proto hdev =
     (case kzalloc of
        None \<Rightarrow> (None, hdev)
      | Some p \<Rightarrow>
          (case hd_connection_hd_cport_id_alloc cfg zeroed_connection hdev of
             (False, connection, hd1) \<Rightarrow> (None, hd1)
           | (True, connection, hd1) \<Rightarrow>
               (let connection1 = connection
                      \<lparr>interface := Some iface, interface_cport_id := cport_id,
                       protocol := proto\<rparr>;
                    hd2 = hd1
                      \<lparr>connections := connections hd1 @ [p],
                       interface_connections := (interface_connections hd1)
                         (iface := interface_connections hd1 iface @ [p])\<rparr>;
                    connection2 = connection1\<lparr>operations := [], op_cycle := 0\<rparr>
                in (Some p, hd2\<lparr>conn_mem := (conn_mem hd2)(p \<mapsto> connection2)\<rparr>))))"

text \<open>
  \<open>gb_connection_destroy\<close>. A null pointer only warns, and so does a list of
  operations that is not empty: the destruction goes on. A pointer that holds no
  connection is outside the function's contract (the C code would touch freed memory);
  the model leaves the host device as it is.
\<close>

definition gb_connection_destroy ::
  "kconfig \<Rightarrow> conn_ptr option \<Rightarrow> greybus_host_device \<Rightarrow> greybus_host_device" where
  "gb_connection_destroy cfg ptr hdev =
     (case ptr of
        None \<Rightarrow> hdev
      | Some p \<Rightarrow>
          (case conn_mem hdev p of
             None \<Rightarrow> hdev
           | Some connection \<Rightarrow>
               (let hd1 = hdev
                      \<lparr>connections := remove1 p (connections hdev),
                       interface_connections :=
                         (case interface connection of
                            None \<Rightarrow> interface_connections hdev
                          | Some iface \<Rightarrow> (interface_connections hdev)
                              (iface := remove1 p (interface_connections hdev iface)))\<rparr>;
                    (connection1, hd2) = hd_connection_hd_cport_id_free cfg connection hd1
                in hd2\<lparr>conn_mem := (conn_mem hd2)(p := None)\<rparr>)))"

text \<open>
  \<open>gb_connection_op_id\<close>: \<open>atomic_inc_return\<close> adds one to the 32-bit counter (wrapping)
  and returns the new value, an \<open>int\<close>; \<open>%\<close> is C's remainder, which truncates towards
  zero (\<open>smod\<close>); the cast to \<open>u16\<close> keeps the low 16 bits.
\<close>

definition gb_connection_op_id :: "gb_connection \<Rightarrow> u16 \<times> gb_connection" where
  "gb_connection_op_id connection =
     (let v = op_cycle connection + 1
      in (word_of_int (sint v smod U16_MAX), connection\<lparr>op_cycle := v\<rparr>))"

text \<open>The ids that \<open>n\<close> consecutive calls on one connection return, in order.\<close>

fun op_id_calls :: "nat \<Rightarrow> gb_connection \<Rightarrow> u16 list" where
  "op_id_calls 0 connection = []"
| "op_id_calls (Suc n) connection =
     (case gb_connection_op_id connection of
        (i, connection') \<Rightarrow> i # op_id_calls n connection')"

text \<open>
  A sequence of calls on one host device. A creation is given the address its
  allocation returns, which holds no live object; a destruction is given a connection
  of the host device. \<open>run_ops\<close> is \<open>None\<close> for a sequence that breaks this.
\<close>

datatype hd_op =
  Create "conn_ptr option" iface_ptr u16 nat
| Destroy conn_ptr

fun run_ops :: "kconfig \<Rightarrow> hd_op list \<Rightarrow> greybus_host_device \<Rightarrow> greybus_host_device option" where
  "run_ops cfg [] hdev = Some hdev"
| "run_ops cfg (Create kzalloc iface cport_id proto # ops) hdev =
     (if (case kzalloc of None \<Rightarrow> True | Some p \<Rightarrow> conn_mem hdev p = None)
      then run_ops cfg ops (snd (gb_connection_create cfg kzalloc iface cport_id proto hdev))
      else None)"
| "run_ops cfg (Destroy p # ops) hdev =
     (if p \<in> set (connections hdev)
      then run_ops cfg ops (gb_connection_destroy cfg (Some p) hdev)
      else None)"

text \<open>
  The results of \<open>n\<close> consecutive calls of \<open>hd_connection_hd_cport_id_alloc\<close>, each
  for a new connection: whether the call succeeded, and the \<open>hd_cport_id\<close> it left in
  the connection.
\<close>

fun cport_id_allocs :: "kconfig \<Rightarrow> nat \<Rightarrow> greybus_host_device \<Rightarrow> (bool \<times> u16) list" where
  "cport_id_allocs cfg 0 hdev = []"
| "cport_id_allocs cfg (Suc n) hdev =
     (case hd_connection_hd_cport_id_alloc cfg zeroed_connection hdev of
        (ok, connection, hdev') \<Rightarrow> (ok, hd_cport_id connection) # cport_id_allocs cfg n hdev')"

text \<open>A small configuration for worked examples: four CPort ids.\<close>

definition kconfig4 :: kconfig where
  "kconfig4 = \<lparr>HOST_DEV_CPORT_ID_MAX = 4, CPORT_ID_BAD = 65535\<rparr>"

text \<open>
  The invariant of the host device: its list holds each live connection once, the
  store holds exactly the connections of the list, no two of them have the same
  \<open>hd_cport_id\<close>, and the ids in use are exactly theirs.
\<close>

definition hd_inv :: "greybus_host_device \<Rightarrow> bool" where
  "hd_inv hdev \<longleftrightarrow>
     distinct (connections hdev) \<and>
     (\<forall>p. p \<in> set (connections hdev) \<longleftrightarrow> conn_mem hdev p \<noteq> None) \<and>
     (\<forall>p q c d. conn_mem hdev p = Some c \<and> conn_mem hdev q = Some d \<and>
        hd_cport_id c = hd_cport_id d \<longrightarrow> p = q) \<and>
     cport_id_map hdev = {unat (hd_cport_id c) | p c. conn_mem hdev p = Some c}"

section \<open>manifest.c: parsing a module manifest\<close>

subsection \<open>The buffer and the wire format\<close>

text \<open>
  The manifest is handed over as a pointer \<open>data\<close> and a length \<open>size\<close>. The model
  has the memory as a function from addresses to bytes, address 0 being \<open>data\<close>; a
  read past \<open>size\<close> (which C does not forbid, and the code does in places) returns
  whatever the memory holds there, and the theorems hold for every content. The host is
  little-endian, as the conversions \<open>le16_to_cpu\<close> and \<open>le64_to_cpu\<close> and the direct
  reads of \<open>desc->string.length\<close> and \<open>desc_header->type\<close> together require.
\<close>

type_synonym memory = "nat \<Rightarrow> u8"

definition memory_of :: "u8 list \<Rightarrow> memory" where
  "memory_of bytes = (\<lambda>a. if a < length bytes then bytes ! a else 0)"

fun le_value :: "memory \<Rightarrow> nat \<Rightarrow> nat \<Rightarrow> nat" where
  "le_value mem a 0 = 0"
| "le_value mem a (Suc n) = unat (mem a) + 256 * le_value mem (Suc a) n"

definition le16 :: "memory \<Rightarrow> nat \<Rightarrow> u16" where
  "le16 mem a = of_nat (unat (mem a) + 256 * unat (mem (a + 1)))"

definition le64 :: "memory \<Rightarrow> nat \<Rightarrow> u64" where
  "le64 mem a = of_nat (le_value mem a 8)"

text \<open>
  Modelled from the spec: \<open>greybus_manifest.h\<close>, with the structures and constants that
  \<open>manifest.c\<close> uses, is not among the sources. The sizes and field offsets follow the
  wire format of section 6, which is "bit-exact": the manifest header
  \<open>{size: u16, version_major: u8, version_minor: u8}\<close>; the descriptor header
  \<open>{size: u16, type: u16}\<close>; the module payload \<open>{vendor: u16, product: u16,
  version: u16, vendor_stringid: u8, product_stringid: u8, serial_number: u64}\<close>; the
  string payload \<open>{id: u8, length: u16, bytes}\<close>; the CPort payload
  \<open>{number: u16, speed: u8, reserved: u8}\<close>. Offsets count from the start of the
  descriptor, whose payload follows its header.
\<close>

definition sizeof_manifest_header :: nat where "sizeof_manifest_header = 4"
definition sizeof_descriptor_header :: nat where "sizeof_descriptor_header = 4"
definition sizeof_descriptor_module :: nat where "sizeof_descriptor_module = 16"
definition sizeof_descriptor_string :: nat where "sizeof_descriptor_string = 3"
definition sizeof_descriptor_cport :: nat where "sizeof_descriptor_cport = 4"

definition header_size :: "memory \<Rightarrow> nat \<Rightarrow> u16" where
  "header_size mem desc = le16 mem desc"
definition header_type :: "memory \<Rightarrow> nat \<Rightarrow> u16" where
  "header_type mem desc = le16 mem (desc + 2)"
definition module_vendor :: "memory \<Rightarrow> nat \<Rightarrow> u16" where
  "module_vendor mem desc = le16 mem (desc + 4)"
definition module_product :: "memory \<Rightarrow> nat \<Rightarrow> u16" where
  "module_product mem desc = le16 mem (desc + 6)"
definition module_version :: "memory \<Rightarrow> nat \<Rightarrow> u16" where
  "module_version mem desc = le16 mem (desc + 8)"
definition module_vendor_stringid :: "memory \<Rightarrow> nat \<Rightarrow> u8" where
  "module_vendor_stringid mem desc = mem (desc + 10)"
definition module_product_stringid :: "memory \<Rightarrow> nat \<Rightarrow> u8" where
  "module_product_stringid mem desc = mem (desc + 11)"
definition module_serial_number :: "memory \<Rightarrow> nat \<Rightarrow> u64" where
  "module_serial_number mem desc = le64 mem (desc + 12)"
definition string_id :: "memory \<Rightarrow> nat \<Rightarrow> u8" where
  "string_id mem desc = mem (desc + 4)"
definition string_length :: "memory \<Rightarrow> nat \<Rightarrow> u16" where
  "string_length mem desc = le16 mem (desc + 5)"
definition string_string :: "memory \<Rightarrow> nat \<Rightarrow> nat" where
  "string_string mem desc = desc + 7"

text \<open>
  The descriptor types and the supported major version are constants of the absent
  header. The spec leaves the numbering of the types open (section 9), so they are
  parameters of the model. \<open>GREYBUS_TYPE_INVALID\<close> shares its case with \<open>default\<close> and
  needs no value.
\<close>

record greybus_manifest_h =
  GREYBUS_VERSION_MAJOR :: u8
  GREYBUS_TYPE_MODULE :: u16
  GREYBUS_TYPE_DEVICE :: u16
  GREYBUS_TYPE_CLASS :: u16
  GREYBUS_TYPE_STRING :: u16
  GREYBUS_TYPE_CPORT :: u16

text \<open>
  Modelled from the spec: \<open>struct gb_module\<close> is declared in a header that is not
  among the sources; section 3 gives the module record. A string is the buffer that
  \<open>kmemdup\<close> returned, terminator included; \<open>None\<close> is the null pointer.
\<close>

record gb_module =
  vendor :: u16
  product :: u16
  version :: u16
  serial_number :: u64
  vendor_string :: "u8 list option"
  product_string :: "u8 list option"

subsection \<open>The state of the parser\<close>

text \<open>
  \<open>struct manifest_desc\<close>: \<open>md_size\<close>, \<open>md_data\<close> and \<open>md_type\<close> are the fields
  \<open>size\<close>, \<open>data\<close> (the address of the descriptor) and \<open>type\<close>.
\<close>

record manifest_desc =
  md_size :: nat
  md_data :: nat
  md_type :: u16

text \<open>
  What the code prints with \<open>pr_err\<close> and \<open>pr_info\<close>, one constructor a message.
  The invalid type is printed with \<open>%hhu\<close>, its low byte.
\<close>

datatype log_msg =
  Short_manifest nat
| Manifest_size_mismatch nat u16
| Manifest_version_too_new u8 u8
| Manifest_too_small
| Descriptor_too_big
| Module_descriptor_too_small nat
| Class_descriptor_found
| String_descriptor_too_small nat
| Cport_descriptor_too_small nat
| Invalid_descriptor_type u8
| Zero_sized_descriptor
| Module_descriptor_count u32
| Excess_descriptors

text \<open>
  The state: the global list \<open>manifest_descs\<close>; the outcomes of the allocations to
  come (\<open>False\<close> for one that fails; when the list is used up every allocation
  succeeds); the number of objects allocated and not yet freed; the kernel log.
\<close>

record mstate =
  manifest_descs :: "manifest_desc list"
  kmalloc_results :: "bool list"
  allocated :: int
  klog :: "log_msg list"

definition pr_err :: "log_msg \<Rightarrow> mstate \<Rightarrow> mstate" where
  "pr_err m s = s\<lparr>klog := klog s @ [m]\<rparr>"

text \<open>\<open>kzalloc\<close> and \<open>kmemdup\<close> allocate; \<open>kfree\<close> of a null pointer does nothing.\<close>

definition kmalloc :: "mstate \<Rightarrow> bool \<times> mstate" where
  "kmalloc s =
     (case kmalloc_results s of
        [] \<Rightarrow> (True, s\<lparr>allocated := allocated s + 1\<rparr>)
      | ok # rest \<Rightarrow>
          (ok, s\<lparr>kmalloc_results := rest,
                 allocated := (if ok then allocated s + 1 else allocated s)\<rparr>))"

definition kfree :: "'a option \<Rightarrow> mstate \<Rightarrow> mstate" where
  "kfree ptr s = (case ptr of None \<Rightarrow> s | Some x \<Rightarrow> s\<lparr>allocated := allocated s - 1\<rparr>)"

text \<open>
  \<open>size_t\<close> has 64 bits on this kernel's target; \<open>size -= desc_size\<close> wraps around
  when \<open>desc_size\<close> is the larger.
\<close>

definition size_t_sub :: "nat \<Rightarrow> nat \<Rightarrow> nat" where
  "size_t_sub a b = (if b \<le> a then a - b else a + 2 ^ 64 - b)"

subsection \<open>The functions of manifest.c\<close>

text \<open>
  \<open>list_del\<close> unlinks the entry it is given. The code only ever gives it the first
  entry of the list with some property of the entry's fields, which is the first entry
  equal to it, the one \<open>remove1\<close> takes out.
\<close>

definition release_manifest_descriptor :: "manifest_desc \<Rightarrow> mstate \<Rightarrow> mstate" where
  "release_manifest_descriptor descriptor s =
     kfree (Some descriptor) (s\<lparr>manifest_descs := remove1 descriptor (manifest_descs s)\<rparr>)"

fun release_all :: "manifest_desc list \<Rightarrow> mstate \<Rightarrow> mstate" where
  "release_all [] s = s"
| "release_all (descriptor # next) s = release_all next (release_manifest_descriptor descriptor s)"

definition release_manifest_descriptors :: "mstate \<Rightarrow> mstate" where
  "release_manifest_descriptors s = release_all (manifest_descs s) s"

text \<open>
  The \<open>switch\<close> of \<open>identify_descriptor\<close> on the type of the descriptor: the message
  of a case that returns \<open>-EINVAL\<close>, or the state (with the line that the class case
  prints) of a case that breaks. The cases are tried in the order of the source.
\<close>

definition descriptor_type_switch ::
  "greybus_manifest_h \<Rightarrow> memory \<Rightarrow> nat \<Rightarrow> nat \<Rightarrow> mstate \<Rightarrow> log_msg + mstate" where
  "descriptor_type_switch cfg mem desc desc_size s =
     (if header_type mem desc = GREYBUS_TYPE_MODULE cfg then
        (if desc_size < sizeof_descriptor_module
         then Inl (Module_descriptor_too_small desc_size) else Inr s)
      else if header_type mem desc = GREYBUS_TYPE_DEVICE cfg then Inr s
      else if header_type mem desc = GREYBUS_TYPE_CLASS cfg then
        Inr (pr_err Class_descriptor_found s)
      else if header_type mem desc = GREYBUS_TYPE_STRING cfg then
        (let expected_size = sizeof_descriptor_header + sizeof_descriptor_string
               + unat (string_length mem desc)
         in if desc_size < expected_size
            then Inl (String_descriptor_too_small desc_size) else Inr s)
      else if header_type mem desc = GREYBUS_TYPE_CPORT cfg then
        (if desc_size < sizeof_descriptor_cport
         then Inl (Cport_descriptor_too_small desc_size) else Inr s)
      else Inl (Invalid_descriptor_type (ucast (header_type mem desc))))"

text \<open>
  \<open>identify_descriptor\<close>: the number of bytes of the descriptor, or the error number
  that the C function returns negated.
\<close>

definition identify_descriptor ::
  "greybus_manifest_h \<Rightarrow> memory \<Rightarrow> nat \<Rightarrow> nat \<Rightarrow> mstate \<Rightarrow> (errno + nat) \<times> mstate" where
  "identify_descriptor cfg mem desc size' s =
     (if size' < sizeof_descriptor_header then (Inl EINVAL, pr_err Manifest_too_small s)
      else
        (let desc_size = unat (header_size mem desc) in
         if desc_size > size' then (Inl EINVAL, pr_err Descriptor_too_big s)
         else
           (case descriptor_type_switch cfg mem desc desc_size s of
              Inl m \<Rightarrow> (Inl EINVAL, pr_err m s)
            | Inr s1 \<Rightarrow>
                (case kmalloc s1 of
                   (False, s2) \<Rightarrow> (Inl ENOMEM, s2)
                 | (True, s2) \<Rightarrow>
                     (Inr desc_size,
                      s2\<lparr>manifest_descs := manifest_descs s2 @
                           [\<lparr>md_size = desc_size, md_data = desc,
                             md_type = header_type mem desc\<rparr>]\<rparr>)))))"

text \<open>
  \<open>gb_string_get\<close>: \<open>Inr None\<close> is the null pointer of string id 0, \<open>Inl e\<close> is
  \<open>ERR_PTR(-e)\<close>. The copy has \<open>length + 1\<close> bytes, the last one set to 0.
\<close>

definition gb_string_get ::
  "greybus_manifest_h \<Rightarrow> memory \<Rightarrow> u8 \<Rightarrow> mstate \<Rightarrow> (errno + u8 list option) \<times> mstate" where
  "gb_string_get cfg mem string_id' s =
     (if string_id' = 0 then (Inr None, s)
      else
        (case find (\<lambda>descriptor. md_type descriptor = GREYBUS_TYPE_STRING cfg \<and>
                      string_id mem (md_data descriptor) = string_id') (manifest_descs s) of
           None \<Rightarrow> (Inl ENOENT, s)
         | Some descriptor \<Rightarrow>
             (case kmalloc s of
                (False, s1) \<Rightarrow> (Inl ENOMEM, s1)
              | (True, s1) \<Rightarrow>
                  (let desc = md_data descriptor;
                       len = unat (string_length mem desc);
                       string = (map (\<lambda>i. mem (string_string mem desc + i)) [0..<len + 1])
                                  [len := 0]
                   in (Inr (Some string), release_manifest_descriptor descriptor s1)))))"

definition gb_manifest_parse_module ::
  "greybus_manifest_h \<Rightarrow> memory \<Rightarrow> manifest_desc \<Rightarrow> mstate \<Rightarrow> gb_module option \<times> mstate" where
  "gb_manifest_parse_module cfg mem module_desc s =
     (let desc = md_data module_desc in
      case kmalloc s of
        (False, s1) \<Rightarrow> (None, s1)
      | (True, s1) \<Rightarrow>
          (case gb_string_get cfg mem (module_vendor_stringid mem desc) s1 of
             (Inl e, s2) \<Rightarrow> (None, kfree (Some ()) s2)
           | (Inr vendor_string', s2) \<Rightarrow>
               (case gb_string_get cfg mem (module_product_stringid mem desc) s2 of
                  (Inl e, s3) \<Rightarrow> (None, kfree (Some ()) (kfree vendor_string' s3))
                | (Inr product_string', s3) \<Rightarrow>
                    (Some \<lparr>vendor = module_vendor mem desc,
                           product = module_product mem desc,
                           version = module_version mem desc,
                           serial_number = module_serial_number mem desc,
                           vendor_string = vendor_string',
                           product_string = product_string'\<rparr>,
                     release_manifest_descriptor module_desc s3))))"

text \<open>
  The \<open>while (size)\<close> loop of \<open>gb_manifest_parse\<close>: \<open>True\<close> when it ends with
  \<open>size\<close> zero, \<open>False\<close> when it leaves for \<open>out_err\<close>.
\<close>

function scan_descriptors ::
  "greybus_manifest_h \<Rightarrow> memory \<Rightarrow> nat \<Rightarrow> nat \<Rightarrow> mstate \<Rightarrow> bool \<times> mstate" where
  "scan_descriptors cfg mem desc size' s =
     (if size' = 0 then (True, s)
      else
        (case identify_descriptor cfg mem desc size' s of
           (Inl e, s1) \<Rightarrow> (False, s1)
         | (Inr desc_size, s1) \<Rightarrow>
             if desc_size = 0 then (False, pr_err Zero_sized_descriptor s1)
             else scan_descriptors cfg mem (desc + desc_size) (size_t_sub size' desc_size) s1))"
  by pat_completeness auto
termination
proof (relation "measure (\<lambda>(cfg, mem, desc, size', s). size')")
  show "wf (measure (\<lambda>(cfg, mem, desc, size', s). size'))" by simp
next
  fix cfg :: greybus_manifest_h and mem :: memory and desc size' :: nat
    and s y :: mstate and x :: "errno + nat" and b :: nat
  assume "size' \<noteq> 0" "(x, y) = identify_descriptor cfg mem desc size' s"
    "x = Inr b" "b \<noteq> 0"
  then have "identify_descriptor cfg mem desc size' s = (Inr b, y)" by simp
  then have "b \<le> size'"
    by (auto simp: identify_descriptor_def Let_def
        split: if_splits sum.splits prod.splits bool.splits)
  with \<open>b \<noteq> 0\<close> \<open>size' \<noteq> 0\<close>
  show "((cfg, mem, desc + b, size_t_sub size' b, y), cfg, mem, desc, size', s)
          \<in> measure (\<lambda>(cfg, mem, desc, size', s). size')"
    by (simp add: size_t_sub_def)
qed

declare scan_descriptors.simps [simp del]

text \<open>
  The loop that counts the module descriptors: \<open>found\<close> is a \<open>u32\<close>, and
  \<open>module_desc\<close> is set where \<open>found\<close> was zero before its increment.
\<close>

fun find_module_desc ::
  "greybus_manifest_h \<Rightarrow> manifest_desc list \<Rightarrow> u32 \<times> manifest_desc option \<Rightarrow>
     u32 \<times> manifest_desc option" where
  "find_module_desc cfg [] (found, module_desc) = (found, module_desc)"
| "find_module_desc cfg (descriptor # rest) (found, module_desc) =
     (if md_type descriptor = GREYBUS_TYPE_MODULE cfg
      then find_module_desc cfg rest
             (found + 1, if found = 0 then Some descriptor else module_desc)
      else find_module_desc cfg rest (found, module_desc))"

text \<open>
  \<open>gb_manifest_parse\<close>. With \<open>found\<close> equal to 1 the pointer \<open>module_desc\<close> has been
  set; the case of a null pointer there is kept for totality and returns nothing.
\<close>

definition gb_manifest_parse ::
  "greybus_manifest_h \<Rightarrow> memory \<Rightarrow> nat \<Rightarrow> mstate \<Rightarrow> gb_module option \<times> mstate" where
  "gb_manifest_parse cfg mem size' s =
     (if size' \<le> sizeof_manifest_header then (None, pr_err (Short_manifest size') s)
      else
        (let manifest_size = le16 mem 0 in
         if unat manifest_size \<noteq> size'
         then (None, pr_err (Manifest_size_mismatch size' manifest_size) s)
         else if mem 2 > GREYBUS_VERSION_MAJOR cfg
         then (None, pr_err (Manifest_version_too_new (mem 2) (mem 3)) s)
         else
           (case scan_descriptors cfg mem sizeof_manifest_header
                   (size' - sizeof_manifest_header) s of
              (False, s1) \<Rightarrow> (None, release_manifest_descriptors s1)
            | (True, s1) \<Rightarrow>
                (case find_module_desc cfg (manifest_descs s1) (0, None) of
                   (found, module_desc) \<Rightarrow>
                     if found \<noteq> 1
                     then (None, release_manifest_descriptors
                                   (pr_err (Module_descriptor_count found) s1))
                     else
                       (case module_desc of
                          None \<Rightarrow> (None, release_manifest_descriptors s1)
                        | Some module_desc' \<Rightarrow>
                            (case gb_manifest_parse_module cfg mem module_desc' s1 of
                               (gmod, s2) \<Rightarrow>
                                 if manifest_descs s2 \<noteq> []
                                 then (gmod, release_manifest_descriptors
                                               (pr_err Excess_descriptors s2))
                                 else (gmod, s2)))))))"

subsection \<open>Worked examples\<close>

text \<open>
  The buffer of the example of section 8, as the wire format lays it out: the manifest
  header \<open>{size = 23, major = 0, minor = 1}\<close> and the module descriptor
  \<open>{size = 15, type = 1, vendor = 0x1234, product = 0x5678, version = 1,
  vendor_stringid = 0, product_stringid = 0, serial = 0}\<close>, 24 bytes in all. The second
  buffer differs in the two sizes only: 24 for the manifest, the length of the buffer, and
  20 for the descriptor, its header and payload. The third has one descriptor of size
  zero. The type numbers of the examples are those of a header that lists module,
  device, class, string and cport in this order, from 1.
\<close>

definition manifest_c2 :: "u8 list" where
  "manifest_c2 = [23, 0, 0, 1, 15, 0, 1, 0, 0x34, 0x12, 0x78, 0x56, 1, 0, 0, 0,
                  0, 0, 0, 0, 0, 0, 0, 0]"

definition manifest_c2_sized :: "u8 list" where
  "manifest_c2_sized = [24, 0, 0, 1, 20, 0, 1, 0, 0x34, 0x12, 0x78, 0x56, 1, 0, 0, 0,
                  0, 0, 0, 0, 0, 0, 0, 0]"

definition example_manifest_h :: greybus_manifest_h where
  "example_manifest_h = \<lparr>GREYBUS_VERSION_MAJOR = 0, GREYBUS_TYPE_MODULE = 1, GREYBUS_TYPE_DEVICE = 2,
     GREYBUS_TYPE_CLASS = 3, GREYBUS_TYPE_STRING = 4, GREYBUS_TYPE_CPORT = 5\<rparr>"

definition manifest_zero_sized :: "u8 list" where
  "manifest_zero_sized = [8, 0, 0, 1, 0, 0, 2, 0]"

definition mstate_init :: mstate where
  "mstate_init = \<lparr>manifest_descs = [], kmalloc_results = [], allocated = 0, klog = []\<rparr>"



definition manifest_two_strings :: "u8 list" where
  "manifest_two_strings =
     [20, 0, 0, 1,
      8, 0, 4, 0, 1, 1, 0, 65,
      8, 0, 4, 0, 1, 1, 0, 66]"

definition manifest_string_absent :: "u8 list" where
  "manifest_string_absent =
     [24, 0, 0, 1,
      20, 0, 1, 0, 0x34, 0x12, 0x78, 0x56, 1, 0, 1, 0, 0, 0, 0, 0, 0, 0, 0, 0]"

definition manifest_with_string :: "u8 list" where
  "manifest_with_string =
     [32, 0, 0, 1,
      20, 0, 1, 0, 0x34, 0x12, 0x78, 0x56, 1, 0, 1, 0, 0, 0, 0, 0, 0, 0, 0, 0,
      8, 0, 4, 0, 1, 1, 0, 65]"

section \<open>Operation ids\<close>

lemma op_id_calls_length: "length (op_id_calls n c) = n"
  by (induction n arbitrary: c) (auto simp: gb_connection_op_id_def Let_def)

lemma op_id_calls_nth:
  "j < n \<Longrightarrow>
   op_id_calls n c ! j = word_of_int (sint (op_cycle c + of_nat (Suc j)) smod U16_MAX)"
proof (induction n arbitrary: c j)
  case 0
  then show ?case by simp
next
  case (Suc n)
  show ?case
  proof (cases j)
    case 0
    then show ?thesis by (simp add: gb_connection_op_id_def Let_def)
  next
    case (Suc k)
    with Suc.prems have "k < n" by simp
    from Suc.IH [OF this, of "c\<lparr>op_cycle := op_cycle c + 1\<rparr>"] Suc
    show ?thesis by (simp add: gb_connection_op_id_def Let_def add.assoc)
  qed
qed

lemma sint_of_nat_small:
  assumes "n < 2 ^ 31"
  shows "sint (of_nat n :: 32 word) = int n"
proof -
  have "sint (of_nat n :: 32 word) = signed_take_bit 31 (int n)"
    using sint_sbintrunc' [where 'a = 32, of "int n"] by simp
  also have "\<dots> = int n"
    using assms by (intro signed_take_bit_int_eq_self) auto
  finally show ?thesis by simp
qed

lemma op_id_fresh_nth:
  assumes "op_cycle c = 0" and "j < n" and "Suc j < 2 ^ 31"
  shows "op_id_calls n c ! j = of_nat (Suc j mod 65535)"
proof -
  have "sint (of_nat (Suc j) :: 32 word) = int (Suc j)"
    using assms(3) by (rule sint_of_nat_small)
  moreover have "int (Suc j) smod 65535 = int (Suc j mod 65535)"
    by (simp add: smod_mod_positive zmod_int)
  ultimately have "op_id_calls n c ! j = word_of_int (int (Suc j mod 65535))"
    using assms(1,2) by (simp add: op_id_calls_nth U16_MAX_def del: of_nat_Suc)
  then show ?thesis by simp
qed

text \<open>
  Claim C1 says that one connection never gets the same operation id twice within
  65536 consecutive calls of \<open>gb_connection_op_id\<close>. The code reduces the counter
  modulo \<open>U16_MAX\<close>, which is 65535: on a connection whose counter is zero the first
  and the 65536th call both return 1, so the 65536 ids are not distinct.
\<close>

theorem op_id_repeats_within_65536_calls:
  "op_id_calls 65536 (c\<lparr>op_cycle := 0\<rparr>) ! 0 = 1 \<and>
   op_id_calls 65536 (c\<lparr>op_cycle := 0\<rparr>) ! 65535 = 1 \<and>
   \<not> distinct (op_id_calls 65536 (c\<lparr>op_cycle := 0\<rparr>))"
proof -
  let ?ids = "op_id_calls 65536 (c\<lparr>op_cycle := 0\<rparr>)"
  have a: "?ids ! 0 = 1"
    by (subst op_id_fresh_nth) simp_all
  have b: "?ids ! 65535 = 1"
    by (subst op_id_fresh_nth) simp_all
  have "\<not> distinct ?ids"
  proof
    assume "distinct ?ids"
    then have "(?ids ! 0 = ?ids ! 65535) = ((0::nat) = 65535)"
      by (intro nth_eq_iff_index_eq) (simp_all add: op_id_calls_length)
    with a b show False by simp
  qed
  with a b show ?thesis by simp
qed

lemma fresh_calls_nonzero:
  assumes "op_cycle c = 0"
  shows "0 \<notin> set (op_id_calls 65534 c)"
proof
  assume "0 \<in> set (op_id_calls 65534 c)"
  then obtain j where j: "j < 65534" and z: "op_id_calls 65534 c ! j = 0"
    by (auto simp: in_set_conv_nth op_id_calls_length)
  from j have "Suc j mod 65535 = Suc j" by simp
  with op_id_fresh_nth [OF assms j] j z have "(of_nat (Suc j) :: u16) = 0" by simp
  then have "unat (of_nat (Suc j) :: u16) = 0" by simp
  with j show False by (simp add: unat_of_nat del: of_nat_Suc)
qed

text \<open>
  Claim C10: on a connection that \<open>gb_connection_create\<close> has just returned the
  counter is zero and the first call of \<open>gb_connection_op_id\<close> returns 1; the id 0
  is not among the first 65534 ids, and is the 65535th.
\<close>

theorem fresh_connection_first_op_id:
  assumes "gb_connection_create cfg kzalloc iface cport_id proto hdev = (Some p, hdev')"
  shows "\<exists>c. conn_mem hdev' p = Some c \<and> op_cycle c = 0 \<and>
             fst (gb_connection_op_id c) = 1 \<and>
             0 \<notin> set (op_id_calls 65534 c) \<and>
             op_id_calls 65535 c ! 65534 = 0"
proof -
  from assms obtain c where c: "conn_mem hdev' p = Some c" "op_cycle c = 0"
    by (auto simp: gb_connection_create_def Let_def split: option.splits prod.splits bool.splits)
  have "fst (gb_connection_op_id c) = 1"
    using c(2) by (simp add: gb_connection_op_id_def Let_def U16_MAX_def smod_mod_positive)
  moreover have "op_id_calls 65535 c ! 65534 = 0"
    using c(2) by (subst op_id_fresh_nth) simp_all
  ultimately show ?thesis using c fresh_calls_nonzero [OF c(2)] by blast
qed

theorem fresh_connection_first_op_id_witness:
  "gb_connection_create kconfig4 (Some 10) 1 3 0 hd_init =
     (Some 10, snd (gb_connection_create kconfig4 (Some 10) 1 3 0 hd_init)) \<and>
   (\<exists>c. conn_mem (snd (gb_connection_create kconfig4 (Some 10) 1 3 0 hd_init)) 10 = Some c \<and>
        op_cycle c = 0 \<and> fst (gb_connection_op_id c) = 1 \<and>
        0 \<notin> set (op_id_calls 65534 c) \<and> op_id_calls 65535 c ! 65534 = 0)"
proof -
  have "[0..<4] = [0, 1, 2, 3]" by (simp add: eval_nat_numeral)
  then have h: "gb_connection_create kconfig4 (Some 10) 1 3 0 hd_init =
     (Some 10, snd (gb_connection_create kconfig4 (Some 10) 1 3 0 hd_init))"
    by (simp add: gb_connection_create_def hd_connection_hd_cport_id_alloc_def
        ida_simple_get_def kconfig4_def hd_init_def Let_def)
  from fresh_connection_first_op_id [OF h] h show ?thesis by simp
qed

section \<open>The CPort id allocator and the connections of a host device\<close>

lemma filter_upt_Cons:
  assumes "filter P [0..<n] = i # rest"
  shows "P i \<and> i < n \<and> (\<forall>j<i. \<not> P j)"
proof -
  from assms obtain us vs where xs: "[0..<n] = us @ i # vs"
    and us: "\<forall>u\<in>set us. \<not> P u" and "P i"
    unfolding filter_eq_Cons_iff by blast
  have "length [0..<n] = length (us @ i # vs)" using xs by simp
  then have len: "length us < n" by simp
  have "[0..<n] ! length us = (us @ i # vs) ! length us" using xs by simp
  with len have i: "i = length us" by simp
  have "take (length us) [0..<n] = take (length us) (us @ i # vs)" using xs by simp
  then have "us = [0..<length us]" using len by simp
  then have "set us = set [0..<i]" using i by simp
  then have "set us = {0..<i}" by simp
  with us \<open>P i\<close> i len show ?thesis by auto
qed


lemma ida_simple_get_Inr:
  assumes "ida_simple_get ida 0 n = (Inr i, ida')"
  shows "i < n \<and> i \<notin> ida \<and> (\<forall>j<i. j \<in> ida) \<and> ida' = insert i ida"
proof (cases "filter (\<lambda>i. i \<notin> ida) [0..<n]")
  case Nil
  with assms show ?thesis by (simp add: ida_simple_get_def)
next
  case (Cons k rest)
  with assms have "k = i" "ida' = insert i ida" by (auto simp: ida_simple_get_def)
  with filter_upt_Cons [OF Cons] show ?thesis by simp
qed

lemma ida_simple_get_Inl:
  assumes "ida_simple_get ida 0 n = (Inl e, ida')"
  shows "e = ENOSPC \<and> ida' = ida \<and> (\<forall>j<n. j \<in> ida)"
proof (cases "filter (\<lambda>i. i \<notin> ida) [0..<n]")
  case Nil
  then have "\<forall>j<n. j \<in> ida" by (simp add: filter_empty_conv)
  with assms Nil show ?thesis by (simp add: ida_simple_get_def)
next
  case (Cons k rest)
  with assms show ?thesis by (simp add: ida_simple_get_def)
qed

lemma ids_of_store_upd:
  assumes "m p = None"
  shows "{f c | q c. (m(p \<mapsto> x)) q = Some c} = insert (f x) {f c | q c. m q = Some c}"
proof (rule set_eqI)
  fix y
  show "y \<in> {f c | q c. (m(p \<mapsto> x)) q = Some c} \<longleftrightarrow>
        y \<in> insert (f x) {f c | q c. m q = Some c}"
  proof
    assume "y \<in> {f c | q c. (m(p \<mapsto> x)) q = Some c}"
    then obtain q c where qc: "(m(p \<mapsto> x)) q = Some c" "y = f c" by blast
    show "y \<in> insert (f x) {f c | q c. m q = Some c}"
    proof (cases "q = p")
      case True
      with qc show ?thesis by simp
    next
      case False
      with qc have "m q = Some c" by simp
      with qc(2) show ?thesis by blast
    qed
  next
    assume "y \<in> insert (f x) {f c | q c. m q = Some c}"
    then consider "y = f x" | q c where "m q = Some c" "y = f c" by blast
    then show "y \<in> {f c | q c. (m(p \<mapsto> x)) q = Some c}"
    proof cases
      case 1
      have "(m(p \<mapsto> x)) p = Some x" by simp
      with 1 show ?thesis by blast
    next
      case 2
      with assms have "q \<noteq> p" by auto
      with 2 have "(m(p \<mapsto> x)) q = Some c" by simp
      with 2(2) show ?thesis by blast
    qed
  qed
qed

lemma ids_of_store_del:
  assumes "m p = Some x"
    and "\<And>q c. m q = Some c \<Longrightarrow> f c = f x \<Longrightarrow> q = p"
  shows "{f c | q c. (m(p := None)) q = Some c} = {f c | q c. m q = Some c} - {f x}"
proof (rule set_eqI)
  fix y
  show "y \<in> {f c | q c. (m(p := None)) q = Some c} \<longleftrightarrow>
        y \<in> {f c | q c. m q = Some c} - {f x}"
  proof
    assume "y \<in> {f c | q c. (m(p := None)) q = Some c}"
    then obtain q c where qc: "(m(p := None)) q = Some c" "y = f c" by blast
    then have "q \<noteq> p" by (auto split: if_splits)
    with qc have mq: "m q = Some c" by simp
    with assms(2) [of q c] \<open>q \<noteq> p\<close> have "f c \<noteq> f x" by blast
    with mq qc(2) show "y \<in> {f c | q c. m q = Some c} - {f x}" by auto
  next
    assume "y \<in> {f c | q c. m q = Some c} - {f x}"
    then obtain q c where qc: "m q = Some c" "y = f c" "y \<noteq> f x" by blast
    with assms(1) have "q \<noteq> p" by auto
    with qc have "(m(p := None)) q = Some c" by simp
    with qc(2) show "y \<in> {f c | q c. (m(p := None)) q = Some c}" by blast
  qed
qed

lemma unat_of_nat_u16: "i < 65536 \<Longrightarrow> unat (of_nat i :: u16) = i"
  by (simp add: unat_of_nat)

lemma hd_inv_init: "hd_inv hd_init"
  by (simp add: hd_inv_def hd_init_def)

lemma hd_inv_create:
  assumes inv: "hd_inv hdev"
    and fresh: "case kzalloc of None \<Rightarrow> True | Some p \<Rightarrow> conn_mem hdev p = None"
    and max: "HOST_DEV_CPORT_ID_MAX cfg \<le> 65536"
  shows "hd_inv (snd (gb_connection_create cfg kzalloc iface cport_id proto hdev))"
proof (cases kzalloc)
  case None
  with inv show ?thesis by (simp add: gb_connection_create_def)
next
  case (Some p)
  with fresh have pnone: "conn_mem hdev p = None" by simp
  obtain r ida where g: "ida_simple_get (cport_id_map hdev) 0 (HOST_DEV_CPORT_ID_MAX cfg) = (r, ida)"
    by (cases "ida_simple_get (cport_id_map hdev) 0 (HOST_DEV_CPORT_ID_MAX cfg)")
  show ?thesis
  proof (cases r)
    case (Inl e)
    with g ida_simple_get_Inl [of "cport_id_map hdev" "HOST_DEV_CPORT_ID_MAX cfg" e ida]
    have "ida = cport_id_map hdev" by simp
    with inv Some g Inl show ?thesis
      by (simp add: gb_connection_create_def hd_connection_hd_cport_id_alloc_def hd_inv_def)
  next
    case (Inr i)
    with g ida_simple_get_Inr [of "cport_id_map hdev" "HOST_DEV_CPORT_ID_MAX cfg" i ida]
    have i: "i < HOST_DEV_CPORT_ID_MAX cfg" "i \<notin> cport_id_map hdev"
      and ida: "ida = insert i (cport_id_map hdev)" by simp_all
    from i(1) max have u: "unat (of_nat i :: u16) = i" by (simp add: unat_of_nat_u16)
    have notin: "p \<notin> set (connections hdev)" using inv pnone by (simp add: hd_inv_def)
    have other: "\<And>q d. conn_mem hdev q = Some d \<Longrightarrow> hd_cport_id d \<noteq> of_nat i"
    proof
      fix q d assume qd: "conn_mem hdev q = Some d" and eq: "hd_cport_id d = of_nat i"
      have "cport_id_map hdev = {unat (hd_cport_id c) | p c. conn_mem hdev p = Some c}"
        using inv by (simp add: hd_inv_def)
      with qd have "unat (hd_cport_id d) \<in> cport_id_map hdev" by blast
      with u i(2) eq show False by simp
    qed
    let ?c = "zeroed_connection\<lparr>hd_cport_id := of_nat i, interface := Some iface,
      interface_cport_id := cport_id, protocol := proto, operations := [], op_cycle := 0\<rparr>"
    let ?h = "hdev\<lparr>cport_id_map := insert i (cport_id_map hdev),
      connections := connections hdev @ [p],
      interface_connections := (interface_connections hdev)
         (iface := interface_connections hdev iface @ [p]),
      conn_mem := (conn_mem hdev)(p \<mapsto> ?c)\<rparr>"
    have res: "snd (gb_connection_create cfg kzalloc iface cport_id proto hdev) = ?h"
      using Some g Inr ida
      by (simp add: gb_connection_create_def hd_connection_hd_cport_id_alloc_def Let_def)
    have 1: "distinct (connections ?h)" using inv notin by (simp add: hd_inv_def)
    have 2: "\<forall>q. q \<in> set (connections ?h) \<longleftrightarrow> conn_mem ?h q \<noteq> None"
      using inv by (auto simp: hd_inv_def)
    have 3: "\<forall>q q' c d. conn_mem ?h q = Some c \<and> conn_mem ?h q' = Some d \<and>
        hd_cport_id c = hd_cport_id d \<longrightarrow> q = q'"
    proof (intro allI impI)
      fix q q' c d
      assume a: "conn_mem ?h q = Some c \<and> conn_mem ?h q' = Some d \<and> hd_cport_id c = hd_cport_id d"
      show "q = q'"
      proof (cases "q = p")
        case True
        show ?thesis
        proof (cases "q' = p")
          case True
          with \<open>q = p\<close> show ?thesis by simp
        next
          case False
          with a True other [of q' d] show ?thesis by auto
        qed
      next
        case False
        show ?thesis
        proof (cases "q' = p")
          case True
          with a False other [of q c] show ?thesis by auto
        next
          case f: False
          with a False inv show ?thesis unfolding hd_inv_def by auto
        qed
      qed
    qed
    have 4: "cport_id_map ?h = {unat (hd_cport_id c) | q c. conn_mem ?h q = Some c}"
    proof -
      have "{unat (hd_cport_id c) | q c. conn_mem ?h q = Some c}
          = insert (unat (hd_cport_id ?c)) {unat (hd_cport_id c) | q c. conn_mem hdev q = Some c}"
        using pnone ids_of_store_upd [where m = "conn_mem hdev" and p = p
            and f = "\<lambda>c. unat (hd_cport_id c)" and x = ?c] by simp
      moreover have "cport_id_map hdev = {unat (hd_cport_id c) | p c. conn_mem hdev p = Some c}"
        using inv by (simp add: hd_inv_def)
      ultimately show ?thesis using u by simp
    qed
    from 1 2 3 4 show ?thesis unfolding res hd_inv_def by blast
  qed
qed

lemma hd_inv_destroy:
  assumes inv: "hd_inv hdev" and live: "p \<in> set (connections hdev)"
  shows "hd_inv (gb_connection_destroy cfg (Some p) hdev)"
proof -
  from inv live obtain x where x: "conn_mem hdev p = Some x" by (auto simp: hd_inv_def)
  let ?h = "gb_connection_destroy cfg (Some p) hdev"
  have conns: "connections ?h = remove1 p (connections hdev)"
    and mem: "conn_mem ?h = (conn_mem hdev)(p := None)"
    and ida: "cport_id_map ?h = cport_id_map hdev - {unat (hd_cport_id x)}"
    using x by (simp_all add: gb_connection_destroy_def hd_connection_hd_cport_id_free_def
        ida_simple_remove_def Let_def split: option.splits)
  have uniq: "\<And>q c. conn_mem hdev q = Some c \<Longrightarrow>
      unat (hd_cport_id c) = unat (hd_cport_id x) \<Longrightarrow> q = p"
    using inv x unfolding hd_inv_def by (metis word_unat_eq_iff)
  have 1: "distinct (connections ?h)" using inv by (simp add: conns hd_inv_def)
  have 2: "\<forall>q. q \<in> set (connections ?h) \<longleftrightarrow> conn_mem ?h q \<noteq> None"
    using inv by (auto simp: conns mem hd_inv_def)
  have 3: "\<forall>q q' c d. conn_mem ?h q = Some c \<and> conn_mem ?h q' = Some d \<and>
        hd_cport_id c = hd_cport_id d \<longrightarrow> q = q'"
  proof (intro allI impI)
    fix q q' c d
    assume a: "conn_mem ?h q = Some c \<and> conn_mem ?h q' = Some d \<and> hd_cport_id c = hd_cport_id d"
    then have "conn_mem hdev q = Some c" "conn_mem hdev q' = Some d"
      by (auto simp: mem split: if_splits)
    with a inv show "q = q'" unfolding hd_inv_def by blast
  qed
  have 4: "cport_id_map ?h = {unat (hd_cport_id c) | q c. conn_mem ?h q = Some c}"
  proof -
    have "cport_id_map hdev = {unat (hd_cport_id c) | p c. conn_mem hdev p = Some c}"
      using inv by (simp add: hd_inv_def)
    moreover have "{unat (hd_cport_id c) | q c. ((conn_mem hdev)(p := None)) q = Some c}
        = {unat (hd_cport_id c) | q c. conn_mem hdev q = Some c} - {unat (hd_cport_id x)}"
      using x uniq by (rule ids_of_store_del [where m = "conn_mem hdev" and p = p
            and f = "\<lambda>c. unat (hd_cport_id c)" and x = x])
    ultimately show ?thesis by (simp add: ida mem)
  qed
  from 1 2 3 4 show ?thesis unfolding hd_inv_def by blast
qed

lemma hd_inv_run_ops:
  assumes "HOST_DEV_CPORT_ID_MAX cfg \<le> 65536"
  shows "hd_inv hdev \<Longrightarrow> run_ops cfg ops hdev = Some hdev' \<Longrightarrow> hd_inv hdev'"
proof (induction ops arbitrary: hdev)
  case Nil
  then show ?case by simp
next
  case (Cons op ops)
  show ?case
  proof (cases op)
    case (Create kzalloc iface cport_id proto)
    with Cons.prems(2)
    have fresh: "case kzalloc of None \<Rightarrow> True | Some p \<Rightarrow> conn_mem hdev p = None"
      and run: "run_ops cfg ops (snd (gb_connection_create cfg kzalloc iface cport_id proto hdev))
                  = Some hdev'"
      by (simp_all split: if_splits)
    from hd_inv_create [OF Cons.prems(1) fresh assms] run show ?thesis
      by (rule Cons.IH)
  next
    case (Destroy p)
    with Cons.prems(2) have live: "p \<in> set (connections hdev)"
      and run: "run_ops cfg ops (gb_connection_destroy cfg (Some p) hdev) = Some hdev'"
      by (simp_all split: if_splits)
    from hd_inv_destroy [OF Cons.prems(1) live] run show ?thesis
      by (rule Cons.IH)
  qed
qed

lemma cport_id_alloc_cases:
  assumes "hd_connection_hd_cport_id_alloc cfg c hdev = (ok, c', hdev')"
  shows "if \<exists>i<HOST_DEV_CPORT_ID_MAX cfg. i \<notin> cport_id_map hdev
         then ok \<and> (\<exists>i<HOST_DEV_CPORT_ID_MAX cfg. i \<notin> cport_id_map hdev \<and>
                (\<forall>j<i. j \<in> cport_id_map hdev) \<and> c' = c\<lparr>hd_cport_id := of_nat i\<rparr> \<and>
                hdev' = hdev\<lparr>cport_id_map := insert i (cport_id_map hdev)\<rparr>)
         else \<not> ok \<and> c' = c \<and> hdev' = hdev"
proof -
  obtain r ida where g:
    "ida_simple_get (cport_id_map hdev) 0 (HOST_DEV_CPORT_ID_MAX cfg) = (r, ida)"
    by (cases "ida_simple_get (cport_id_map hdev) 0 (HOST_DEV_CPORT_ID_MAX cfg)")
  show ?thesis
  proof (cases r)
    case (Inl e)
    with g ida_simple_get_Inl [of "cport_id_map hdev" "HOST_DEV_CPORT_ID_MAX cfg" e ida]
    have "ida = cport_id_map hdev" "\<forall>j<HOST_DEV_CPORT_ID_MAX cfg. j \<in> cport_id_map hdev"
      by simp_all
    with assms g Inl show ?thesis
      by (auto simp: hd_connection_hd_cport_id_alloc_def)
  next
    case (Inr i)
    with g ida_simple_get_Inr [of "cport_id_map hdev" "HOST_DEV_CPORT_ID_MAX cfg" i ida]
    have i: "i < HOST_DEV_CPORT_ID_MAX cfg" "i \<notin> cport_id_map hdev"
      "\<forall>j<i. j \<in> cport_id_map hdev" "ida = insert i (cport_id_map hdev)" by simp_all
    from assms g Inr i(4) have "ok" "c' = c\<lparr>hd_cport_id := of_nat i\<rparr>"
      "hdev' = hdev\<lparr>cport_id_map := insert i (cport_id_map hdev)\<rparr>"
      by (auto simp: hd_connection_hd_cport_id_alloc_def)
    with i show ?thesis by auto
  qed
qed

lemma cport_id_allocs_from:
  assumes "cport_id_map hdev = {0..<k}" and "k + n \<le> HOST_DEV_CPORT_ID_MAX cfg"
  shows "cport_id_allocs cfg n hdev = map (\<lambda>i. (True, of_nat i)) [k..<k + n]"
  using assms
proof (induction n arbitrary: k hdev)
  case 0
  then show ?case by simp
next
  case (Suc n)
  obtain ok c' hdev' where a:
    "hd_connection_hd_cport_id_alloc cfg zeroed_connection hdev = (ok, c', hdev')"
    by (cases "hd_connection_hd_cport_id_alloc cfg zeroed_connection hdev")
  from Suc.prems have free: "\<exists>i<HOST_DEV_CPORT_ID_MAX cfg. i \<notin> cport_id_map hdev"
    by (intro exI [of _ k]) simp
  with cport_id_alloc_cases [OF a] obtain i where i: "ok" "i \<notin> cport_id_map hdev"
    "\<forall>j<i. j \<in> cport_id_map hdev" "c' = zeroed_connection\<lparr>hd_cport_id := of_nat i\<rparr>"
    "hdev' = hdev\<lparr>cport_id_map := insert i (cport_id_map hdev)\<rparr>"
    by auto
  from i(2) Suc.prems(1) have "k \<le> i" by simp
  moreover have "\<not> k < i" using i(3) Suc.prems(1) by auto
  ultimately have ik: "i = k" by simp
  have "cport_id_map hdev' = {0..<Suc k}"
    using i(5) ik Suc.prems(1) by (simp add: atLeast0_lessThan_Suc)
  moreover have "Suc k + n \<le> HOST_DEV_CPORT_ID_MAX cfg" using Suc.prems(2) by simp
  ultimately have "cport_id_allocs cfg n hdev' = map (\<lambda>i. (True, of_nat i)) [Suc k..<Suc k + n]"
    by (rule Suc.IH)
  with a i(1,4) ik show ?case by (simp add: upt_rec [of k] del: of_nat_Suc)
qed

text \<open>
  Claim C8: the allocation takes the lowest free id below \<open>HOST_DEV_CPORT_ID_MAX\<close> and
  fails, changing nothing, when no id is free; \<open>n\<close> allocations in a row on an empty
  allocator return \<open>0, 1, ..., n - 1\<close> in this order; and the allocation that follows
  the release of a connection's id \<open>k\<close> returns the lowest id free then, which is
  \<open>k\<close> or a lower id that was free before.
\<close>

theorem cport_id_alloc_lowest_free:
  "(hd_connection_hd_cport_id_alloc cfg c hdev = (ok, c', hdev') \<longrightarrow>
      (if \<exists>i<HOST_DEV_CPORT_ID_MAX cfg. i \<notin> cport_id_map hdev
       then ok \<and> (\<exists>i<HOST_DEV_CPORT_ID_MAX cfg. i \<notin> cport_id_map hdev \<and>
              (\<forall>j<i. j \<in> cport_id_map hdev) \<and> hd_cport_id c' = of_nat i \<and>
              cport_id_map hdev' = insert i (cport_id_map hdev))
       else \<not> ok \<and> c' = c \<and> hdev' = hdev)) \<and>
   (cport_id_map hdev = {} \<and> n \<le> HOST_DEV_CPORT_ID_MAX cfg \<longrightarrow>
      cport_id_allocs cfg n hdev = map (\<lambda>i. (True, of_nat i)) [0..<n]) \<and>
   (unat (hd_cport_id c) < HOST_DEV_CPORT_ID_MAX cfg \<longrightarrow>
      (case hd_connection_hd_cport_id_free cfg c hdev of (c1, hdev1) \<Rightarrow>
         case hd_connection_hd_cport_id_alloc cfg c1 hdev1 of (ok2, c2, hdev2) \<Rightarrow>
           ok2 \<and> (\<exists>i \<le> unat (hd_cport_id c). hd_cport_id c2 = of_nat i \<and>
              (i = unat (hd_cport_id c) \<or> i \<notin> cport_id_map hdev) \<and>
              (\<forall>j<i. j \<in> cport_id_map hdev \<and> j \<noteq> unat (hd_cport_id c)))))"
proof (intro conjI impI)
  assume a: "hd_connection_hd_cport_id_alloc cfg c hdev = (ok, c', hdev')"
  from cport_id_alloc_cases [OF a]
  show "if \<exists>i<HOST_DEV_CPORT_ID_MAX cfg. i \<notin> cport_id_map hdev
       then ok \<and> (\<exists>i<HOST_DEV_CPORT_ID_MAX cfg. i \<notin> cport_id_map hdev \<and>
              (\<forall>j<i. j \<in> cport_id_map hdev) \<and> hd_cport_id c' = of_nat i \<and>
              cport_id_map hdev' = insert i (cport_id_map hdev))
       else \<not> ok \<and> c' = c \<and> hdev' = hdev"
    by (auto split: if_splits)
next
  assume "cport_id_map hdev = {} \<and> n \<le> HOST_DEV_CPORT_ID_MAX cfg"
  then show "cport_id_allocs cfg n hdev = map (\<lambda>i. (True, of_nat i)) [0..<n]"
    using cport_id_allocs_from [of hdev 0 n cfg] by simp
next
  let ?k = "unat (hd_cport_id c)"
  assume k: "?k < HOST_DEV_CPORT_ID_MAX cfg"
  obtain c1 hdev1 where f: "hd_connection_hd_cport_id_free cfg c hdev = (c1, hdev1)"
    by (cases "hd_connection_hd_cport_id_free cfg c hdev")
  obtain ok2 c2 hdev2 where a: "hd_connection_hd_cport_id_alloc cfg c1 hdev1 = (ok2, c2, hdev2)"
    by (cases "hd_connection_hd_cport_id_alloc cfg c1 hdev1")
  from f have m1: "cport_id_map hdev1 = cport_id_map hdev - {?k}"
    by (auto simp: hd_connection_hd_cport_id_free_def ida_simple_remove_def)
  with k have "\<exists>i<HOST_DEV_CPORT_ID_MAX cfg. i \<notin> cport_id_map hdev1" by auto
  with cport_id_alloc_cases [OF a] obtain i where i: "ok2" "i \<notin> cport_id_map hdev1"
    "\<forall>j<i. j \<in> cport_id_map hdev1" "c2 = c1\<lparr>hd_cport_id := of_nat i\<rparr>"
    by auto
  have "\<not> ?k < i" using i(3) m1 by auto
  then have "i \<le> ?k" by simp
  moreover have "i = ?k \<or> i \<notin> cport_id_map hdev" using i(2) m1 by auto
  moreover have "\<forall>j<i. j \<in> cport_id_map hdev \<and> j \<noteq> ?k" using i(3) m1 by auto
  moreover have "hd_cport_id c2 = of_nat i" using i(4) by simp
  ultimately show "case hd_connection_hd_cport_id_free cfg c hdev of (c1, hdev1) \<Rightarrow>
         case hd_connection_hd_cport_id_alloc cfg c1 hdev1 of (ok2, c2, hdev2) \<Rightarrow>
           ok2 \<and> (\<exists>i \<le> unat (hd_cport_id c). hd_cport_id c2 = of_nat i \<and>
              (i = unat (hd_cport_id c) \<or> i \<notin> cport_id_map hdev) \<and>
              (\<forall>j<i. j \<in> cport_id_map hdev \<and> j \<noteq> unat (hd_cport_id c)))"
    using f a i(1) by auto
qed

lemma upt_0_4: "[0..<4] = [0, 1, 2, 3]"
  by (simp add: eval_nat_numeral)

theorem cport_id_alloc_lowest_free_witness:
  "fst (hd_connection_hd_cport_id_alloc kconfig4 zeroed_connection
          (hd_init\<lparr>cport_id_map := {0, 1, 3}\<rparr>)) \<and>
   hd_cport_id (fst (snd (hd_connection_hd_cport_id_alloc kconfig4 zeroed_connection
          (hd_init\<lparr>cport_id_map := {0, 1, 3}\<rparr>)))) = 2 \<and>
   \<not> fst (hd_connection_hd_cport_id_alloc kconfig4 zeroed_connection
          (hd_init\<lparr>cport_id_map := {0, 1, 2, 3}\<rparr>)) \<and>
   cport_id_allocs kconfig4 4 hd_init = [(True, 0), (True, 1), (True, 2), (True, 3)] \<and>
   (case hd_connection_hd_cport_id_free kconfig4 (zeroed_connection\<lparr>hd_cport_id := 1\<rparr>)
           (hd_init\<lparr>cport_id_map := {0, 1, 2}\<rparr>) of
      (c1, hdev1) \<Rightarrow> hd_cport_id (fst (snd (hd_connection_hd_cport_id_alloc kconfig4 c1 hdev1))) = 1)"
proof -
  have a: "hd_connection_hd_cport_id_alloc kconfig4 zeroed_connection
          (hd_init\<lparr>cport_id_map := {0, 1, 3}\<rparr>) =
          (True, zeroed_connection\<lparr>hd_cport_id := 2\<rparr>, hd_init\<lparr>cport_id_map := {0, 1, 2, 3}\<rparr>)"
    by (simp add: hd_connection_hd_cport_id_alloc_def ida_simple_get_def kconfig4_def
        upt_0_4 insert_commute)
  have b: "hd_connection_hd_cport_id_alloc kconfig4 zeroed_connection
          (hd_init\<lparr>cport_id_map := {0, 1, 2, 3}\<rparr>) =
          (False, zeroed_connection, hd_init\<lparr>cport_id_map := {0, 1, 2, 3}\<rparr>)"
    by (simp add: hd_connection_hd_cport_id_alloc_def ida_simple_get_def kconfig4_def
        upt_0_4)
  have n: "cport_id_map hd_init = {} \<and> 4 \<le> HOST_DEV_CPORT_ID_MAX kconfig4"
    by (simp add: hd_init_def kconfig4_def)
  have k: "unat (hd_cport_id (zeroed_connection\<lparr>hd_cport_id := 1\<rparr>)) < HOST_DEV_CPORT_ID_MAX kconfig4"
    by (simp add: kconfig4_def)
  have f: "hd_connection_hd_cport_id_free kconfig4 (zeroed_connection\<lparr>hd_cport_id := 1\<rparr>)
           (hd_init\<lparr>cport_id_map := {0, 1, 2}\<rparr>) =
           (zeroed_connection\<lparr>hd_cport_id := 65535\<rparr>, hd_init\<lparr>cport_id_map := {0, 2}\<rparr>)"
  proof -
    have "({0, 1, 2} :: nat set) - {1} = {0, 2}" by auto
    then show ?thesis
      by (simp add: hd_connection_hd_cport_id_free_def ida_simple_remove_def kconfig4_def)
  qed
  have g: "hd_connection_hd_cport_id_alloc kconfig4 (zeroed_connection\<lparr>hd_cport_id := 65535\<rparr>)
          (hd_init\<lparr>cport_id_map := {0, 2}\<rparr>) =
          (True, zeroed_connection\<lparr>hd_cport_id := 1\<rparr>, hd_init\<lparr>cport_id_map := {0, 1, 2}\<rparr>)"
    by (simp add: hd_connection_hd_cport_id_alloc_def ida_simple_get_def kconfig4_def
        upt_0_4 insert_commute)
  from cport_id_alloc_lowest_free [of kconfig4 zeroed_connection
      "hd_init\<lparr>cport_id_map := {0, 1, 3}\<rparr>" True "zeroed_connection\<lparr>hd_cport_id := 2\<rparr>"
      "hd_init\<lparr>cport_id_map := {0, 1, 2, 3}\<rparr>" 0]
    cport_id_alloc_lowest_free [of kconfig4 "zeroed_connection\<lparr>hd_cport_id := 1\<rparr>" hd_init True
      "zeroed_connection\<lparr>hd_cport_id := 0\<rparr>" "hd_init\<lparr>cport_id_map := {0}\<rparr>" 4]
    a b n k f g
  show ?thesis by (simp add: upt_0_4)
qed

text \<open>
  Claim C9: in every state that creations and destructions of connections lead to from
  the initial host device, the live connections have pairwise different
  \<open>hd_cport_id\<close>s, the ids in use are exactly the ids of the live connections, and
  destroying a live connection removes it and frees its id and no other. The ids are
  \<open>u16\<close> values, so the allocator's bound must not exceed 65536.
\<close>

theorem live_cport_ids_unique:
  assumes "run_ops cfg ops hd_init = Some hdev"
    and "HOST_DEV_CPORT_ID_MAX cfg \<le> 65536"
  shows "distinct (connections hdev) \<and>
     (\<forall>p\<in>set (connections hdev). \<exists>c. conn_mem hdev p = Some c) \<and>
     (\<forall>p q c d. p \<in> set (connections hdev) \<and> q \<in> set (connections hdev) \<and> p \<noteq> q \<and>
        conn_mem hdev p = Some c \<and> conn_mem hdev q = Some d \<longrightarrow>
        hd_cport_id c \<noteq> hd_cport_id d) \<and>
     cport_id_map hdev =
       {unat (hd_cport_id c) | p c. p \<in> set (connections hdev) \<and> conn_mem hdev p = Some c} \<and>
     (\<forall>p c. p \<in> set (connections hdev) \<and> conn_mem hdev p = Some c \<longrightarrow>
        unat (hd_cport_id c) \<in> cport_id_map hdev \<and>
        cport_id_map (gb_connection_destroy cfg (Some p) hdev) =
          cport_id_map hdev - {unat (hd_cport_id c)} \<and>
        p \<notin> set (connections (gb_connection_destroy cfg (Some p) hdev)) \<and>
        conn_mem (gb_connection_destroy cfg (Some p) hdev) p = None)"
proof -
  have inv: "hd_inv hdev"
    using assms(2) hd_inv_init assms(1) by (rule hd_inv_run_ops)
  then have 1: "distinct (connections hdev)"
    and 2: "\<forall>p. p \<in> set (connections hdev) \<longleftrightarrow> conn_mem hdev p \<noteq> None"
    and 3: "\<forall>p q c d. conn_mem hdev p = Some c \<and> conn_mem hdev q = Some d \<and>
        hd_cport_id c = hd_cport_id d \<longrightarrow> p = q"
    and 4: "cport_id_map hdev = {unat (hd_cport_id c) | p c. conn_mem hdev p = Some c}"
    by (simp_all add: hd_inv_def)
  from 2 have a: "\<forall>p\<in>set (connections hdev). \<exists>c. conn_mem hdev p = Some c" by auto
  from 3 have b: "\<forall>p q c d. p \<in> set (connections hdev) \<and> q \<in> set (connections hdev) \<and>
        p \<noteq> q \<and> conn_mem hdev p = Some c \<and> conn_mem hdev q = Some d \<longrightarrow>
        hd_cport_id c \<noteq> hd_cport_id d" by blast
  have c: "cport_id_map hdev =
       {unat (hd_cport_id c) | p c. p \<in> set (connections hdev) \<and> conn_mem hdev p = Some c}"
    using 2 4 by auto
  have d: "\<forall>p c. p \<in> set (connections hdev) \<and> conn_mem hdev p = Some c \<longrightarrow>
        unat (hd_cport_id c) \<in> cport_id_map hdev \<and>
        cport_id_map (gb_connection_destroy cfg (Some p) hdev) =
          cport_id_map hdev - {unat (hd_cport_id c)} \<and>
        p \<notin> set (connections (gb_connection_destroy cfg (Some p) hdev)) \<and>
        conn_mem (gb_connection_destroy cfg (Some p) hdev) p = None"
  proof (intro allI impI)
    fix p x
    assume px: "p \<in> set (connections hdev) \<and> conn_mem hdev p = Some x"
    then have "unat (hd_cport_id x) \<in> cport_id_map hdev" using 4 by blast
    moreover have "cport_id_map (gb_connection_destroy cfg (Some p) hdev) =
          cport_id_map hdev - {unat (hd_cport_id x)}"
      and "connections (gb_connection_destroy cfg (Some p) hdev) = remove1 p (connections hdev)"
      and "conn_mem (gb_connection_destroy cfg (Some p) hdev) p = None"
      using px by (simp_all add: gb_connection_destroy_def hd_connection_hd_cport_id_free_def
        ida_simple_remove_def Let_def split: option.splits)
    ultimately show "unat (hd_cport_id x) \<in> cport_id_map hdev \<and>
        cport_id_map (gb_connection_destroy cfg (Some p) hdev) =
          cport_id_map hdev - {unat (hd_cport_id x)} \<and>
        p \<notin> set (connections (gb_connection_destroy cfg (Some p) hdev)) \<and>
        conn_mem (gb_connection_destroy cfg (Some p) hdev) p = None"
      using 1 by simp
  qed
  from 1 a b c d show ?thesis by blast
qed

theorem live_cport_ids_unique_witness:
  "\<exists>hdev. run_ops kconfig4
       [Create (Some 10) 1 3 0, Create (Some 11) 1 4 0, Destroy 10, Create (Some 12) 2 0 1]
       hd_init = Some hdev \<and>
     HOST_DEV_CPORT_ID_MAX kconfig4 \<le> 65536 \<and>
     connections hdev = [11, 12] \<and>
     map_option hd_cport_id (conn_mem hdev 11) = Some 1 \<and>
     map_option hd_cport_id (conn_mem hdev 12) = Some 0 \<and>
     cport_id_map hdev = {0, 1} \<and>
     distinct (connections hdev) \<and>
     cport_id_map hdev =
       {unat (hd_cport_id c) | p c. p \<in> set (connections hdev) \<and> conn_mem hdev p = Some c}"
proof -
  have s: "({0, 1} :: nat set) - {0} = {1}" by auto
  have max: "HOST_DEV_CPORT_ID_MAX kconfig4 \<le> 65536" by (simp add: kconfig4_def)
  have "\<exists>hdev. run_ops kconfig4
       [Create (Some 10) 1 3 0, Create (Some 11) 1 4 0, Destroy 10, Create (Some 12) 2 0 1]
       hd_init = Some hdev \<and>
     connections hdev = [11, 12] \<and>
     map_option hd_cport_id (conn_mem hdev 11) = Some 1 \<and>
     map_option hd_cport_id (conn_mem hdev 12) = Some 0 \<and>
     cport_id_map hdev = {0, 1}"
    using s
    by (simp add: gb_connection_create_def gb_connection_destroy_def
        hd_connection_hd_cport_id_alloc_def hd_connection_hd_cport_id_free_def
        ida_simple_get_def ida_simple_remove_def kconfig4_def hd_init_def
        zeroed_connection_def upt_0_4 Let_def insert_commute)
  then obtain hdev where run: "run_ops kconfig4
       [Create (Some 10) 1 3 0, Create (Some 11) 1 4 0, Destroy 10, Create (Some 12) 2 0 1]
       hd_init = Some hdev"
    and facts: "connections hdev = [11, 12]"
      "map_option hd_cport_id (conn_mem hdev 11) = Some 1"
      "map_option hd_cport_id (conn_mem hdev 12) = Some 0"
      "cport_id_map hdev = {0, 1}"
    by blast
  from live_cport_ids_unique [OF run max]
  have "distinct (connections hdev)"
    and "cport_id_map hdev =
       {unat (hd_cport_id c) | p c. p \<in> set (connections hdev) \<and> conn_mem hdev p = Some c}"
    by blast+
  with run max facts show ?thesis by blast
qed

section \<open>The manifest parser\<close>

lemmas layout_defs = sizeof_manifest_header_def sizeof_descriptor_header_def
  sizeof_descriptor_module_def sizeof_descriptor_string_def sizeof_descriptor_cport_def
  header_size_def header_type_def module_vendor_def module_product_def module_version_def
  module_vendor_stringid_def module_product_stringid_def module_serial_number_def
  string_id_def string_length_def string_string_def le16_def le64_def

lemma le_value_8:
  "le_value mem a 8 = unat (mem a) + 256 * (unat (mem (a + 1)) + 256 * (unat (mem (a + 2)) +
     256 * (unat (mem (a + 3)) + 256 * (unat (mem (a + 4)) + 256 * (unat (mem (a + 5)) +
     256 * (unat (mem (a + 6)) + 256 * unat (mem (a + 7))))))))"
proof -
  have e: "(8::nat) = Suc (Suc (Suc (Suc (Suc (Suc (Suc (Suc 0)))))))" by simp
  have "le_value mem a (Suc (Suc (Suc (Suc (Suc (Suc (Suc (Suc 0)))))))) =
     unat (mem a) + 256 * (unat (mem (a + 1)) + 256 * (unat (mem (a + 2)) +
     256 * (unat (mem (a + 3)) + 256 * (unat (mem (a + 4)) + 256 * (unat (mem (a + 5)) +
     256 * (unat (mem (a + 6)) + 256 * unat (mem (a + 7))))))))"
    by (simp add: numeral_Bit0 numeral_Bit1 del: mult_Suc mult_Suc_right)
  then show ?thesis by (simp only: e)
qed


lemma kmalloc_effect:
  assumes "kmalloc s = (ok, s1)"
  shows "manifest_descs s1 = manifest_descs s \<and> klog s1 = klog s \<and>
         allocated s1 = (if ok then allocated s + 1 else allocated s)"
  using assms by (auto simp: kmalloc_def split: list.splits)

lemma release_all_klog: "klog (release_all ds s) = klog s"
  by (induction ds arbitrary: s) (simp_all add: release_manifest_descriptor_def kfree_def)

lemma release_all_descs:
  "manifest_descs s = ds @ r \<Longrightarrow> manifest_descs (release_all ds s) = r"
  by (induction ds arbitrary: s) (simp_all add: release_manifest_descriptor_def kfree_def)

lemma release_manifest_descriptors_empty:
  "manifest_descs (release_manifest_descriptors s) = []"
  by (simp add: release_manifest_descriptors_def release_all_descs)

lemma descriptor_type_switch_Inr:
  assumes "descriptor_type_switch cfg mem desc desc_size s = Inr sa"
  shows "sa = s \<or> sa = pr_err Class_descriptor_found s"
  using assms by (simp add: descriptor_type_switch_def Let_def split: if_splits)

lemma identify_descriptor_Inr:
  assumes "identify_descriptor cfg mem desc size' s = (Inr n, s1)"
  shows "n = unat (header_size mem desc) \<and> n \<le> size' \<and>
         manifest_descs s1 = manifest_descs s @
           [\<lparr>md_size = n, md_data = desc, md_type = header_type mem desc\<rparr>]"
proof -
  let ?n = "unat (header_size mem desc)"
  from assms have big: "\<not> size' < sizeof_descriptor_header" "\<not> ?n > size'"
    by (auto simp: identify_descriptor_def Let_def split: if_splits)
  show ?thesis
  proof (cases "descriptor_type_switch cfg mem desc ?n s")
    case (Inl m)
    with assms big show ?thesis by (simp add: identify_descriptor_def Let_def)
  next
    case (Inr sa)
    obtain ok sb where k: "kmalloc sa = (ok, sb)" by (cases "kmalloc sa")
    from descriptor_type_switch_Inr [OF Inr] have "manifest_descs sa = manifest_descs s"
      by (auto simp: pr_err_def)
    with kmalloc_effect [OF k] have "manifest_descs sb = manifest_descs s" by simp
    with assms big Inr k show ?thesis
      by (cases ok) (auto simp: identify_descriptor_def Let_def)
  qed
qed

lemma identify_descriptor_Inl:
  assumes "identify_descriptor cfg mem desc size' s = (Inl e, s1)"
  shows "manifest_descs s1 = manifest_descs s"
proof (cases "size' < sizeof_descriptor_header \<or> unat (header_size mem desc) > size'")
  case True
  with assms show ?thesis
    by (auto simp: identify_descriptor_def Let_def pr_err_def split: if_splits)
next
  case False
  let ?n = "unat (header_size mem desc)"
  show ?thesis
  proof (cases "descriptor_type_switch cfg mem desc ?n s")
    case (Inl m)
    with assms False show ?thesis by (auto simp: identify_descriptor_def pr_err_def Let_def)
  next
    case (Inr sa)
    obtain ok sb where k: "kmalloc sa = (ok, sb)" by (cases "kmalloc sa")
    from descriptor_type_switch_Inr [OF Inr] have "manifest_descs sa = manifest_descs s"
      by (auto simp: pr_err_def)
    with kmalloc_effect [OF k] have "manifest_descs sb = manifest_descs s" by simp
    with assms False Inr k show ?thesis
      by (cases ok) (auto simp: identify_descriptor_def Let_def)
  qed
qed

lemma scan_descriptors_length:
  "length (manifest_descs (snd (scan_descriptors cfg mem desc size' s)))
     \<le> length (manifest_descs s) + size'"
proof (induction cfg mem desc size' s rule: scan_descriptors.induct)
  case (1 cfg mem desc size' s)
  show ?case
  proof (cases "size' = 0")
    case True
    then show ?thesis by (simp add: scan_descriptors.simps)
  next
    case False
    obtain r s1 where i: "identify_descriptor cfg mem desc size' s = (r, s1)"
      by (cases "identify_descriptor cfg mem desc size' s")
    show ?thesis
    proof (cases r)
      case (Inl e)
      with i False identify_descriptor_Inl [of cfg mem desc size' s e s1] show ?thesis
        by (simp add: scan_descriptors.simps)
    next
      case (Inr n)
      with i identify_descriptor_Inr [of cfg mem desc size' s n s1]
      have n: "n \<le> size'" and l: "length (manifest_descs s1) = length (manifest_descs s) + 1"
        by simp_all
      show ?thesis
      proof (cases "n = 0")
        case True
        with i Inr False l show ?thesis by (simp add: scan_descriptors.simps pr_err_def)
      next
        case f: False
        from "1.IH" [OF False i [symmetric] Inr f]
        have "length (manifest_descs (snd (scan_descriptors cfg mem (desc + n)
                 (size_t_sub size' n) s1))) \<le> length (manifest_descs s1) + size_t_sub size' n" .
        moreover have "size_t_sub size' n = size' - n" using n by (simp add: size_t_sub_def)
        ultimately show ?thesis using i Inr False f l n
          by (subst scan_descriptors.simps) simp
      qed
    qed
  qed
qed

lemma scan_descriptors_zero_size:
  assumes "size' \<noteq> 0" and "header_size mem desc = 0"
  shows "fst (scan_descriptors cfg mem desc size' s) = False"
proof -
  obtain r s1 where i: "identify_descriptor cfg mem desc size' s = (r, s1)"
    by (cases "identify_descriptor cfg mem desc size' s")
  show ?thesis
  proof (cases r)
    case (Inl e)
    with i assms(1) show ?thesis by (simp add: scan_descriptors.simps)
  next
    case (Inr n)
    with i identify_descriptor_Inr [of cfg mem desc size' s n s1] assms(2) have "n = 0" by simp
    with i Inr assms(1) show ?thesis by (simp add: scan_descriptors.simps)
  qed
qed

lemma scan_fails_parse_fails:
  assumes "fst (scan_descriptors cfg mem sizeof_manifest_header
                  (size' - sizeof_manifest_header) s) = False"
  shows "fst (gb_manifest_parse cfg mem size' s) = None"
  using assms
  by (auto simp: gb_manifest_parse_def Let_def split: prod.splits bool.splits)

text \<open>
  Claim C5: the scanning loop of \<open>gb_manifest_parse\<close> ends on every buffer (it is
  \<open>scan_descriptors\<close>, whose recursion is well founded on the bytes that remain). An
  identified descriptor takes \<open>n\<close> bytes with \<open>n\<close> at most the bytes that remain, so
  the subtraction does not wrap, and a nonzero \<open>n\<close> leaves strictly fewer; a descriptor
  whose size field is zero makes the loop fail wherever the loop meets it; the loop
  continues after a descriptor exactly as a loop started behind it; a failed loop makes
  the whole parse return nothing; and the loop identifies at most as many descriptors as
  it has bytes.
\<close>

theorem descriptor_scan_terminates:
  "(identify_descriptor cfg mem desc size' s = (Inr n, s1) \<longrightarrow>
      n \<le> size' \<and> size_t_sub size' n = size' - n \<and> (0 < n \<longrightarrow> size_t_sub size' n < size')) \<and>
   (size' \<noteq> 0 \<and> header_size mem desc = 0 \<longrightarrow>
      fst (scan_descriptors cfg mem desc size' s) = False) \<and>
   (size' \<noteq> 0 \<and> identify_descriptor cfg mem desc size' s = (Inr n, s1) \<and> 0 < n \<longrightarrow>
      scan_descriptors cfg mem desc size' s =
        scan_descriptors cfg mem (desc + n) (size' - n) s1) \<and>
   (fst (scan_descriptors cfg mem sizeof_manifest_header (size' - sizeof_manifest_header) s)
      = False \<longrightarrow> fst (gb_manifest_parse cfg mem size' s) = None) \<and>
   length (manifest_descs (snd (scan_descriptors cfg mem desc size' s)))
     \<le> length (manifest_descs s) + size'"
proof (intro conjI impI)
  assume i: "identify_descriptor cfg mem desc size' s = (Inr n, s1)"
  from identify_descriptor_Inr [OF i] have n: "n \<le> size'" by simp
  then show "n \<le> size'" .
  from n show "size_t_sub size' n = size' - n" by (simp add: size_t_sub_def)
  assume "0 < n"
  with n show "size_t_sub size' n < size'" by (simp add: size_t_sub_def)
next
  assume "size' \<noteq> 0 \<and> header_size mem desc = 0"
  then show "fst (scan_descriptors cfg mem desc size' s) = False"
    by (simp add: scan_descriptors_zero_size)
next
  assume a: "size' \<noteq> 0 \<and> identify_descriptor cfg mem desc size' s = (Inr n, s1) \<and> 0 < n"
  with identify_descriptor_Inr [of cfg mem desc size' s n s1]
  have "size_t_sub size' n = size' - n" by (simp add: size_t_sub_def)
  with a show "scan_descriptors cfg mem desc size' s =
        scan_descriptors cfg mem (desc + n) (size' - n) s1"
    by (subst scan_descriptors.simps) simp
next
  assume "fst (scan_descriptors cfg mem sizeof_manifest_header
                 (size' - sizeof_manifest_header) s) = False"
  then show "fst (gb_manifest_parse cfg mem size' s) = None"
    by (rule scan_fails_parse_fails)
next
  show "length (manifest_descs (snd (scan_descriptors cfg mem desc size' s)))
     \<le> length (manifest_descs s) + size'"
    by (rule scan_descriptors_length)
qed

lemmas eval_defs = gb_manifest_parse_def identify_descriptor_def descriptor_type_switch_def
  gb_manifest_parse_module_def gb_string_get_def release_manifest_descriptors_def
  release_manifest_descriptor_def kmalloc_def kfree_def pr_err_def size_t_sub_def
  layout_defs memory_of_def Let_def

theorem descriptor_scan_terminates_witness:
  "fst (identify_descriptor example_manifest_h (memory_of manifest_c2_sized) 4 20 mstate_init)
     = Inr 20 \<and>
   size_t_sub 20 20 < (20::nat) \<and>
   header_size (memory_of manifest_zero_sized) 4 = 0 \<and>
   fst (scan_descriptors example_manifest_h (memory_of manifest_zero_sized) 4 4 mstate_init)
     = False \<and>
   fst (gb_manifest_parse example_manifest_h (memory_of manifest_zero_sized) 8 mstate_init)
     = None"
proof -
  let ?s1 = "snd (identify_descriptor example_manifest_h (memory_of manifest_c2_sized) 4 20
                    mstate_init)"
  have i': "fst (identify_descriptor example_manifest_h (memory_of manifest_c2_sized) 4 20
                   mstate_init) = Inr 20"
    by (simp add: eval_defs manifest_c2_sized_def example_manifest_h_def mstate_init_def)
  then have i: "identify_descriptor example_manifest_h (memory_of manifest_c2_sized) 4 20
                  mstate_init = (Inr 20, ?s1)"
    by (simp add: prod_eq_iff)
  have z: "(4::nat) \<noteq> 0 \<and> header_size (memory_of manifest_zero_sized) 4 = 0"
    by (simp add: layout_defs memory_of_def manifest_zero_sized_def)
  from descriptor_scan_terminates [of example_manifest_h "memory_of manifest_c2_sized" 4 20
      mstate_init 20 ?s1] i
  have a: "size_t_sub 20 20 < (20::nat)" by simp
  from descriptor_scan_terminates [of example_manifest_h "memory_of manifest_zero_sized" 4 4
      mstate_init 0 mstate_init] z
  have b: "fst (scan_descriptors example_manifest_h (memory_of manifest_zero_sized) 4 4
                  mstate_init) = False" by simp
  from descriptor_scan_terminates [of example_manifest_h "memory_of manifest_zero_sized" 4 8
      mstate_init 0 mstate_init] b
  have c: "fst (gb_manifest_parse example_manifest_h (memory_of manifest_zero_sized) 8
                  mstate_init) = None"
    by (simp add: sizeof_manifest_header_def)
  from i' a z b c show ?thesis by simp
qed

text \<open>
  Claim C2 says that the buffer with manifest size 23 and module descriptor size 15
  parses. It does not: with the length 23 that the header declares the module
  descriptor is refused, its size 15 being less than the 16 bytes of
  \<open>struct greybus_descriptor_module\<close>; with its real length 24 the sizes do not match.
\<close>

theorem c2_counterexample:
  "\<forall>cfg s.
     fst (gb_manifest_parse (cfg\<lparr>GREYBUS_TYPE_MODULE := 1\<rparr>) (memory_of manifest_c2) 23 s)
       = None \<and>
     klog (snd (gb_manifest_parse (cfg\<lparr>GREYBUS_TYPE_MODULE := 1\<rparr>) (memory_of manifest_c2) 23 s))
       = klog s @ [Module_descriptor_too_small 15] \<and>
     gb_manifest_parse (cfg\<lparr>GREYBUS_TYPE_MODULE := 1\<rparr>) (memory_of manifest_c2) 24 s =
       (None, pr_err (Manifest_size_mismatch 24 23) s)"
proof (intro allI conjI)
  fix cfg s
  have h: "le16 (memory_of manifest_c2) 0 = 23" "memory_of manifest_c2 2 = 0"
    by (simp_all add: le16_def memory_of_def manifest_c2_def)
  have i: "identify_descriptor (cfg\<lparr>GREYBUS_TYPE_MODULE := 1\<rparr>) (memory_of manifest_c2) 4 19 s
      = (Inl EINVAL, pr_err (Module_descriptor_too_small 15) s)"
    by (simp add: identify_descriptor_def descriptor_type_switch_def layout_defs memory_of_def
        manifest_c2_def Let_def)
  have p: "gb_manifest_parse (cfg\<lparr>GREYBUS_TYPE_MODULE := 1\<rparr>) (memory_of manifest_c2) 23 s
      = (None, release_manifest_descriptors (pr_err (Module_descriptor_too_small 15) s))"
    by (simp add: gb_manifest_parse_def sizeof_manifest_header_def Let_def h
        scan_descriptors.simps [of _ _ 4 19] i)
  from p show "fst (gb_manifest_parse (cfg\<lparr>GREYBUS_TYPE_MODULE := 1\<rparr>)
      (memory_of manifest_c2) 23 s) = None" by simp
  from p show "klog (snd (gb_manifest_parse (cfg\<lparr>GREYBUS_TYPE_MODULE := 1\<rparr>)
      (memory_of manifest_c2) 23 s)) = klog s @ [Module_descriptor_too_small 15]"
    by (simp add: release_manifest_descriptors_def release_all_klog pr_err_def)
  show "gb_manifest_parse (cfg\<lparr>GREYBUS_TYPE_MODULE := 1\<rparr>) (memory_of manifest_c2) 24 s =
       (None, pr_err (Manifest_size_mismatch 24 23) s)"
    by (simp add: gb_manifest_parse_def sizeof_manifest_header_def Let_def h)
qed

text \<open>
  Claim C2, amended: the buffer whose header declares size 24 and whose module
  descriptor declares size 20, with the same fields, parses and yields the module with
  vendor 0x1234, product 0x5678, version 1, serial number 0 and no strings (the index
  being empty before, and memory available); the buffer with sizes 23 and 15 is refused.
\<close>

theorem c2_sized_manifest_parses:
  "gb_manifest_parse (cfg\<lparr>GREYBUS_TYPE_MODULE := 1\<rparr>) (memory_of manifest_c2_sized) 24
     (s\<lparr>manifest_descs := [], kmalloc_results := []\<rparr>) =
     (Some \<lparr>vendor = 0x1234, product = 0x5678, version = 1, serial_number = 0,
            vendor_string = None, product_string = None\<rparr>,
      s\<lparr>manifest_descs := [], kmalloc_results := [], allocated := allocated s + 1\<rparr>) \<and>
   fst (gb_manifest_parse (cfg\<lparr>GREYBUS_TYPE_MODULE := 1\<rparr>) (memory_of manifest_c2) 23 s) = None"
proof
  let ?s = "s\<lparr>manifest_descs := [], kmalloc_results := []\<rparr>"
  let ?d = "\<lparr>md_size = 20, md_data = 4, md_type = 1\<rparr>"
  have hs: "le16 (memory_of manifest_c2_sized) 0 = 24" "memory_of manifest_c2_sized 2 = 0"
    by (simp_all add: le16_def memory_of_def manifest_c2_sized_def)
  have i: "identify_descriptor (cfg\<lparr>GREYBUS_TYPE_MODULE := 1\<rparr>) (memory_of manifest_c2_sized)
             4 20 ?s = (Inr 20, ?s\<lparr>manifest_descs := [?d], allocated := allocated s + 1\<rparr>)"
    by (simp add: identify_descriptor_def descriptor_type_switch_def kmalloc_def layout_defs
        memory_of_def manifest_c2_sized_def Let_def)
  have sc: "scan_descriptors (cfg\<lparr>GREYBUS_TYPE_MODULE := 1\<rparr>) (memory_of manifest_c2_sized)
             4 20 ?s = (True, ?s\<lparr>manifest_descs := [?d], allocated := allocated s + 1\<rparr>)"
    using i by (simp add: scan_descriptors.simps [of _ _ 4 20]
        scan_descriptors.simps [of _ _ _ 0] size_t_sub_def)
  have m: "gb_manifest_parse_module (cfg\<lparr>GREYBUS_TYPE_MODULE := 1\<rparr>)
             (memory_of manifest_c2_sized) ?d
             (?s\<lparr>manifest_descs := [?d], allocated := allocated s + 1\<rparr>) =
           (Some \<lparr>vendor = 0x1234, product = 0x5678, version = 1, serial_number = 0,
            vendor_string = None, product_string = None\<rparr>,
            ?s\<lparr>manifest_descs := [], allocated := allocated s + 1\<rparr>)"
    by (simp add: gb_manifest_parse_module_def gb_string_get_def kmalloc_def kfree_def
        release_manifest_descriptor_def layout_defs le_value_8 memory_of_def
        manifest_c2_sized_def Let_def)
  show "gb_manifest_parse (cfg\<lparr>GREYBUS_TYPE_MODULE := 1\<rparr>) (memory_of manifest_c2_sized) 24 ?s =
     (Some \<lparr>vendor = 0x1234, product = 0x5678, version = 1, serial_number = 0,
            vendor_string = None, product_string = None\<rparr>,
      s\<lparr>manifest_descs := [], kmalloc_results := [], allocated := allocated s + 1\<rparr>)"
    using sc m by (simp add: gb_manifest_parse_def sizeof_manifest_header_def Let_def hs)
next
  have h: "le16 (memory_of manifest_c2) 0 = 23" "memory_of manifest_c2 2 = 0"
    by (simp_all add: le16_def memory_of_def manifest_c2_def)
  have i: "identify_descriptor (cfg\<lparr>GREYBUS_TYPE_MODULE := 1\<rparr>) (memory_of manifest_c2) 4 19 s
      = (Inl EINVAL, pr_err (Module_descriptor_too_small 15) s)"
    by (simp add: identify_descriptor_def descriptor_type_switch_def layout_defs memory_of_def
        manifest_c2_def Let_def)
  show "fst (gb_manifest_parse (cfg\<lparr>GREYBUS_TYPE_MODULE := 1\<rparr>) (memory_of manifest_c2) 23 s)
          = None"
    by (simp add: gb_manifest_parse_def sizeof_manifest_header_def Let_def h
        scan_descriptors.simps [of _ _ 4 19] i)
qed

text \<open>
  Claim C4 says that every buffer whose declared size differs from its length is refused
  as a size mismatch. A buffer of 4 bytes, a whole manifest header, that declares 23 is
  refused as too short: the length is compared with the size of the header first.
\<close>

theorem size_mismatch_counterexample:
  "\<forall>cfg s. unat (le16 (memory_of [23, 0, 0, 1]) 0) \<noteq> 4 \<and>
     gb_manifest_parse cfg (memory_of [23, 0, 0, 1]) 4 s = (None, pr_err (Short_manifest 4) s) \<and>
     pr_err (Short_manifest 4) s \<noteq> pr_err (Manifest_size_mismatch 4 23) s"
proof (intro allI conjI)
  fix cfg :: greybus_manifest_h and s :: mstate
  show "unat (le16 (memory_of [23, 0, 0, 1]) 0) \<noteq> 4"
    by (simp add: le16_def memory_of_def)
  show "gb_manifest_parse cfg (memory_of [23, 0, 0, 1]) 4 s = (None, pr_err (Short_manifest 4) s)"
    by (simp add: gb_manifest_parse_def sizeof_manifest_header_def)
  show "pr_err (Short_manifest 4) s \<noteq> pr_err (Manifest_size_mismatch 4 23) s"
  proof
    assume "pr_err (Short_manifest 4) s = pr_err (Manifest_size_mismatch 4 23) s"
    then have "klog (pr_err (Short_manifest 4) s) = klog (pr_err (Manifest_size_mismatch 4 23) s)"
      by simp
    then show False by (simp add: pr_err_def)
  qed
qed

text \<open>
  Claim C4, amended: a buffer whose declared size differs from its length is refused,
  whatever else it holds: as a size mismatch when it is longer than the manifest header,
  as a short manifest otherwise. Nothing else is done.
\<close>

theorem size_mismatch_rejected:
  assumes "unat (le16 mem 0) \<noteq> size'"
  shows "gb_manifest_parse cfg mem size' s =
     (None, pr_err (if size' \<le> sizeof_manifest_header then Short_manifest size'
                    else Manifest_size_mismatch size' (le16 mem 0)) s)"
  using assms by (simp add: gb_manifest_parse_def Let_def)

theorem size_mismatch_rejected_witness:
  "unat (le16 (memory_of manifest_c2) 0) \<noteq> 24 \<and>
   gb_manifest_parse example_manifest_h (memory_of manifest_c2) 24 mstate_init =
     (None, pr_err (Manifest_size_mismatch 24 23) mstate_init)"
proof -
  have h: "unat (le16 (memory_of manifest_c2) 0) \<noteq> 24"
    by (simp add: le16_def memory_of_def manifest_c2_def)
  have "le16 (memory_of manifest_c2) 0 = 23"
    by (simp add: le16_def memory_of_def manifest_c2_def)
  with size_mismatch_rejected [OF h, of example_manifest_h mstate_init] h show ?thesis
    by (simp add: sizeof_manifest_header_def)
qed








lemma find_Some_split:
  "find P xs = Some d \<Longrightarrow> \<exists>ds1 ds2. xs = ds1 @ d # ds2 \<and> P d \<and> (\<forall>e\<in>set ds1. \<not> P e)"
proof (induction xs)
  case Nil
  then show ?case by simp
next
  case (Cons x xs)
  show ?case
  proof (cases "P x")
    case True
    with Cons.prems have "x = d" by simp
    with True have "x # xs = [] @ d # xs \<and> P d \<and> (\<forall>e\<in>set []. \<not> P e)" by simp
    then show ?thesis by blast
  next
    case False
    with Cons.prems have "find P xs = Some d" by simp
    from Cons.IH [OF this] obtain ds1 ds2 where
      "xs = ds1 @ d # ds2" "P d" "\<forall>e\<in>set ds1. \<not> P e" by blast
    with False have "x # xs = (x # ds1) @ d # ds2 \<and> P d \<and> (\<forall>e\<in>set (x # ds1). \<not> P e)"
      by simp
    then show ?thesis by blast
  qed
qed

lemma gb_string_get_cases:
  assumes "gb_string_get cfg mem sid s = (r, s1)"
  shows
    "(sid = 0 \<and> r = Inr None \<and> s1 = s) \<or>
     (sid \<noteq> 0 \<and> r = Inl ENOENT \<and> s1 = s \<and>
        find (\<lambda>d. md_type d = GREYBUS_TYPE_STRING cfg \<and> string_id mem (md_data d) = sid)
          (manifest_descs s) = None) \<or>
     (sid \<noteq> 0 \<and> r = Inl ENOMEM \<and> kmalloc s = (False, s1) \<and>
        find (\<lambda>d. md_type d = GREYBUS_TYPE_STRING cfg \<and> string_id mem (md_data d) = sid)
          (manifest_descs s) \<noteq> None) \<or>
     (sid \<noteq> 0 \<and> (\<exists>d sk str. r = Inr (Some str) \<and> kmalloc s = (True, sk) \<and>
        find (\<lambda>d. md_type d = GREYBUS_TYPE_STRING cfg \<and> string_id mem (md_data d) = sid)
          (manifest_descs s) = Some d \<and>
        s1 = release_manifest_descriptor d sk))"
proof (cases "sid = 0")
  case True
  with assms show ?thesis by (simp add: gb_string_get_def)
next
  case False
  let ?P = "\<lambda>d. md_type d = GREYBUS_TYPE_STRING cfg \<and> string_id mem (md_data d) = sid"
  show ?thesis
  proof (cases "find ?P (manifest_descs s)")
    case None
    with assms False show ?thesis by (simp add: gb_string_get_def)
  next
    case (Some d)
    obtain ok sk where k: "kmalloc s = (ok, sk)" by (cases "kmalloc s")
    show ?thesis
    proof (cases ok)
      case True
      with assms False Some k show ?thesis by (auto simp: gb_string_get_def Let_def)
    next
      case f: False
      with assms False Some k show ?thesis by (auto simp: gb_string_get_def Let_def)
    qed
  qed
qed

lemma release_manifest_descriptor_effect:
  "manifest_descs (release_manifest_descriptor d s) = remove1 d (manifest_descs s) \<and>
   allocated (release_manifest_descriptor d s) = allocated s - 1"
  by (simp add: release_manifest_descriptor_def kfree_def)

lemma find_append_none:
  "\<forall>e\<in>set xs. \<not> P e \<Longrightarrow> find P (xs @ ys) = find P ys"
  by (induction xs) simp_all

lemma gb_string_get_found:
  assumes "sid \<noteq> 0"
    and "find (\<lambda>d. md_type d = GREYBUS_TYPE_STRING cfg \<and> string_id mem (md_data d) = sid)
           (manifest_descs s) = Some d"
    and "kmalloc s = (True, sk)"
  shows "gb_string_get cfg mem sid s =
     (Inr (Some ((map (\<lambda>i. mem (string_string mem (md_data d) + i))
                    [0..<unat (string_length mem (md_data d)) + 1])
                  [unat (string_length mem (md_data d)) := 0])),
      release_manifest_descriptor d sk)"
  using assms by (simp add: gb_string_get_def Let_def)

lemma gb_string_get_nomem:
  assumes "sid \<noteq> 0"
    and "find (\<lambda>d. md_type d = GREYBUS_TYPE_STRING cfg \<and> string_id mem (md_data d) = sid)
           (manifest_descs s) = Some d"
    and "kmalloc s = (False, sk)"
  shows "gb_string_get cfg mem sid s = (Inl ENOMEM, sk)"
  using assms by (simp add: gb_string_get_def Let_def)

text \<open>
  Claim C6, amended: a successful \<open>gb_string_get\<close> of a nonzero id removes from the
  index the first string descriptor with this id and nothing else, and a second call for
  the id fails with \<open>ENOENT\<close> exactly when no string descriptor with this id is left
  behind the removed one. When one is left, the second call takes the first of them: it
  returns the copy of its string and removes it from the index if the memory for the
  copy is allocated, and fails with \<open>ENOMEM\<close>, the index unchanged, if it is not.
\<close>

theorem string_descriptor_consumed:
  assumes "string_id' \<noteq> 0"
    and "gb_string_get cfg mem string_id' s = (Inr r, s1)"
  shows "\<exists>ds1 d ds2 str.
           r = Some str \<and>
           manifest_descs s = ds1 @ d # ds2 \<and>
           md_type d = GREYBUS_TYPE_STRING cfg \<and> string_id mem (md_data d) = string_id' \<and>
           (\<forall>e\<in>set ds1. \<not> (md_type e = GREYBUS_TYPE_STRING cfg \<and>
                               string_id mem (md_data e) = string_id')) \<and>
           manifest_descs s1 = ds1 @ ds2 \<and>
           (fst (gb_string_get cfg mem string_id' s1) = Inl ENOENT \<longleftrightarrow>
              (\<forall>e\<in>set ds2. \<not> (md_type e = GREYBUS_TYPE_STRING cfg \<and>
                                  string_id mem (md_data e) = string_id'))) \<and>
           ((\<exists>e\<in>set ds2. md_type e = GREYBUS_TYPE_STRING cfg \<and>
                            string_id mem (md_data e) = string_id') \<and>
            \<not> fst (kmalloc s1) \<longrightarrow>
              fst (gb_string_get cfg mem string_id' s1) = Inl ENOMEM \<and>
              manifest_descs (snd (gb_string_get cfg mem string_id' s1)) = ds1 @ ds2) \<and>
           ((\<exists>e\<in>set ds2. md_type e = GREYBUS_TYPE_STRING cfg \<and>
                            string_id mem (md_data e) = string_id') \<and>
            fst (kmalloc s1) \<longrightarrow>
              (\<exists>da d' db.
                 ds2 = da @ d' # db \<and>
                 md_type d' = GREYBUS_TYPE_STRING cfg \<and>
                 string_id mem (md_data d') = string_id' \<and>
                 (\<forall>e\<in>set da. \<not> (md_type e = GREYBUS_TYPE_STRING cfg \<and>
                                    string_id mem (md_data e) = string_id')) \<and>
                 fst (gb_string_get cfg mem string_id' s1) =
                   Inr (Some ((map (\<lambda>i. mem (string_string mem (md_data d') + i))
                                 [0..<unat (string_length mem (md_data d')) + 1])
                               [unat (string_length mem (md_data d')) := 0])) \<and>
                 manifest_descs (snd (gb_string_get cfg mem string_id' s1)) = ds1 @ da @ db))"
proof -
  let ?P = "\<lambda>d. md_type d = GREYBUS_TYPE_STRING cfg \<and> string_id mem (md_data d) = string_id'"
  from gb_string_get_cases [OF assms(2)] assms(1)
  obtain d sk str where r: "r = Some str" and k: "kmalloc s = (True, sk)"
    and f: "find ?P (manifest_descs s) = Some d"
    and s1: "s1 = release_manifest_descriptor d sk"
    by auto
  from find_Some_split [OF f] obtain ds1 ds2 where
    split: "manifest_descs s = ds1 @ d # ds2" and d: "?P d" and ds1: "\<forall>e\<in>set ds1. \<not> ?P e"
    by blast
  from d ds1 have "d \<notin> set ds1" by blast
  with split have "remove1 d (manifest_descs s) = ds1 @ ds2" by (simp add: remove1_append)
  with kmalloc_effect [OF k] s1 have after: "manifest_descs s1 = ds1 @ ds2"
    by (simp add: release_manifest_descriptor_effect)
  obtain r2 s2 where g2: "gb_string_get cfg mem string_id' s1 = (r2, s2)"
    by (cases "gb_string_get cfg mem string_id' s1")
  have "r2 = Inl ENOENT \<longleftrightarrow> find ?P (manifest_descs s1) = None"
    using gb_string_get_cases [OF g2] assms(1) by auto
  also have "\<dots> \<longleftrightarrow> (\<forall>e\<in>set (ds1 @ ds2). \<not> ?P e)"
    unfolding after find_None_iff by blast
  also have "\<dots> \<longleftrightarrow> (\<forall>e\<in>set ds2. \<not> ?P e)" using ds1 by auto
  finally have enoent: "fst (gb_string_get cfg mem string_id' s1) = Inl ENOENT \<longleftrightarrow>
      (\<forall>e\<in>set ds2. \<not> ?P e)" using g2 by simp
  have fs1: "find ?P (manifest_descs s1) = find ?P ds2"
    unfolding after using ds1 by (rule find_append_none)
  obtain ok2 sk2 where k2: "kmalloc s1 = (ok2, sk2)" by (cases "kmalloc s1")
  have nomem: "(\<exists>e\<in>set ds2. ?P e) \<and> \<not> fst (kmalloc s1) \<longrightarrow>
      fst (gb_string_get cfg mem string_id' s1) = Inl ENOMEM \<and>
      manifest_descs (snd (gb_string_get cfg mem string_id' s1)) = ds1 @ ds2"
  proof
    assume a: "(\<exists>e\<in>set ds2. ?P e) \<and> \<not> fst (kmalloc s1)"
    then have "find ?P ds2 \<noteq> None" unfolding find_None_iff by blast
    then obtain d' where f2: "find ?P (manifest_descs s1) = Some d'" using fs1 by auto
    from a k2 have k2f: "kmalloc s1 = (False, sk2)" by simp
    from gb_string_get_nomem [OF assms(1) f2 k2f] kmalloc_effect [OF k2f] after
    show "fst (gb_string_get cfg mem string_id' s1) = Inl ENOMEM \<and>
      manifest_descs (snd (gb_string_get cfg mem string_id' s1)) = ds1 @ ds2"
      by simp
  qed
  have found: "(\<exists>e\<in>set ds2. ?P e) \<and> fst (kmalloc s1) \<longrightarrow>
      (\<exists>da d' db. ds2 = da @ d' # db \<and> ?P d' \<and> (\<forall>e\<in>set da. \<not> ?P e) \<and>
         fst (gb_string_get cfg mem string_id' s1) =
           Inr (Some ((map (\<lambda>i. mem (string_string mem (md_data d') + i))
                         [0..<unat (string_length mem (md_data d')) + 1])
                       [unat (string_length mem (md_data d')) := 0])) \<and>
         manifest_descs (snd (gb_string_get cfg mem string_id' s1)) = ds1 @ da @ db)"
  proof
    assume a: "(\<exists>e\<in>set ds2. ?P e) \<and> fst (kmalloc s1)"
    then have "find ?P ds2 \<noteq> None" unfolding find_None_iff by blast
    then obtain d' where f2: "find ?P ds2 = Some d'" by auto
    with fs1 have f2': "find ?P (manifest_descs s1) = Some d'" by simp
    from find_Some_split [OF f2] obtain da db where
      split2: "ds2 = da @ d' # db" and d': "?P d'" and da: "\<forall>e\<in>set da. \<not> ?P e"
      by blast
    from a k2 have k2t: "kmalloc s1 = (True, sk2)" by simp
    from d' ds1 da have "d' \<notin> set ds1" "d' \<notin> set da" by blast+
    then have "remove1 d' (ds1 @ da @ d' # db) = ds1 @ da @ db"
      by (simp add: remove1_append)
    with kmalloc_effect [OF k2t] after split2
    have "manifest_descs (release_manifest_descriptor d' sk2) = ds1 @ da @ db"
      by (simp add: release_manifest_descriptor_effect)
    with gb_string_get_found [OF assms(1) f2' k2t] split2 d' da
    show "\<exists>da d' db. ds2 = da @ d' # db \<and> ?P d' \<and> (\<forall>e\<in>set da. \<not> ?P e) \<and>
         fst (gb_string_get cfg mem string_id' s1) =
           Inr (Some ((map (\<lambda>i. mem (string_string mem (md_data d') + i))
                         [0..<unat (string_length mem (md_data d')) + 1])
                       [unat (string_length mem (md_data d')) := 0])) \<and>
         manifest_descs (snd (gb_string_get cfg mem string_id' s1)) = ds1 @ da @ db"
      by (intro exI [of _ da] exI [of _ d'] exI [of _ db]) simp
  qed
  from r split d ds1 after enoent nomem found show ?thesis
    by (intro exI [of _ ds1] exI [of _ d] exI [of _ ds2] exI [of _ str]) simp
qed

theorem string_descriptor_consumed_witness:
  "gb_string_get example_manifest_h (memory_of manifest_with_string) 1
     (mstate_init\<lparr>manifest_descs :=
        [\<lparr>md_size = 20, md_data = 4, md_type = 1\<rparr>, \<lparr>md_size = 8, md_data = 24, md_type = 4\<rparr>],
        allocated := 2\<rparr>) =
     (Inr (Some [65, 0]),
      mstate_init\<lparr>manifest_descs := [\<lparr>md_size = 20, md_data = 4, md_type = 1\<rparr>],
        allocated := 2\<rparr>) \<and>
   fst (gb_string_get example_manifest_h (memory_of manifest_with_string) 1
     (mstate_init\<lparr>manifest_descs := [\<lparr>md_size = 20, md_data = 4, md_type = 1\<rparr>],
        allocated := 2\<rparr>)) = Inl ENOENT \<and>
   gb_string_get example_manifest_h (memory_of manifest_two_strings) 1
     (mstate_init\<lparr>manifest_descs :=
        [\<lparr>md_size = 8, md_data = 4, md_type = 4\<rparr>, \<lparr>md_size = 8, md_data = 12, md_type = 4\<rparr>],
        allocated := 2\<rparr>) =
     (Inr (Some [65, 0]),
      mstate_init\<lparr>manifest_descs := [\<lparr>md_size = 8, md_data = 12, md_type = 4\<rparr>],
        allocated := 2\<rparr>) \<and>
   fst (gb_string_get example_manifest_h (memory_of manifest_two_strings) 1
     (mstate_init\<lparr>manifest_descs := [\<lparr>md_size = 8, md_data = 12, md_type = 4\<rparr>],
        allocated := 2\<rparr>)) = Inr (Some [66, 0]) \<and>
   gb_string_get example_manifest_h (memory_of manifest_two_strings) 1
     (mstate_init\<lparr>manifest_descs :=
        [\<lparr>md_size = 8, md_data = 4, md_type = 4\<rparr>, \<lparr>md_size = 8, md_data = 12, md_type = 4\<rparr>],
        kmalloc_results := [True, False], allocated := 2\<rparr>) =
     (Inr (Some [65, 0]),
      mstate_init\<lparr>manifest_descs := [\<lparr>md_size = 8, md_data = 12, md_type = 4\<rparr>],
        kmalloc_results := [False], allocated := 2\<rparr>) \<and>
   fst (gb_string_get example_manifest_h (memory_of manifest_two_strings) 1
     (mstate_init\<lparr>manifest_descs := [\<lparr>md_size = 8, md_data = 12, md_type = 4\<rparr>],
        kmalloc_results := [False], allocated := 2\<rparr>)) = Inl ENOMEM"
proof -
  have n: "(1 :: u8) \<noteq> 0" by simp
  have A: "gb_string_get example_manifest_h (memory_of manifest_with_string) 1
     (mstate_init\<lparr>manifest_descs :=
        [\<lparr>md_size = 20, md_data = 4, md_type = 1\<rparr>, \<lparr>md_size = 8, md_data = 24, md_type = 4\<rparr>],
        allocated := 2\<rparr>) =
     (Inr (Some [65, 0]),
      mstate_init\<lparr>manifest_descs := [\<lparr>md_size = 20, md_data = 4, md_type = 1\<rparr>],
        allocated := 2\<rparr>) \<and>
   fst (gb_string_get example_manifest_h (memory_of manifest_with_string) 1
     (mstate_init\<lparr>manifest_descs := [\<lparr>md_size = 20, md_data = 4, md_type = 1\<rparr>],
        allocated := 2\<rparr>)) = Inl ENOENT"
  proof -
    let ?m = "memory_of manifest_with_string"
    let ?d1 = "\<lparr>md_size = 20, md_data = 4, md_type = 1\<rparr>"
    let ?d2 = "\<lparr>md_size = 8, md_data = 24, md_type = 4\<rparr>"
    let ?s = "mstate_init\<lparr>manifest_descs := [?d1, ?d2], allocated := 2\<rparr>"
    let ?s1 = "mstate_init\<lparr>manifest_descs := [?d1], allocated := 2\<rparr>"
    have g: "gb_string_get example_manifest_h ?m 1 ?s = (Inr (Some [65, 0]), ?s1)"
      by (simp add: gb_string_get_def kmalloc_def kfree_def release_manifest_descriptor_def
          layout_defs memory_of_def manifest_with_string_def example_manifest_h_def
          mstate_init_def Let_def upt_rec [of 0] upt_rec [of 1])
    from string_descriptor_consumed [OF n g]
    obtain ds1 ds2 where after: "manifest_descs ?s1 = ds1 @ ds2"
      and iff: "fst (gb_string_get example_manifest_h ?m 1 ?s1) = Inl ENOENT \<longleftrightarrow>
        (\<forall>e\<in>set ds2. \<not> (md_type e = GREYBUS_TYPE_STRING example_manifest_h \<and>
                            string_id ?m (md_data e) = 1))"
      by blast
    from after have "ds1 @ ds2 = [?d1]" by (simp add: mstate_init_def)
    then have "set (ds1 @ ds2) = set [?d1]" by simp
    then have "set ds2 \<subseteq> {?d1}" by auto
    then have "\<forall>e\<in>set ds2. \<not> (md_type e = GREYBUS_TYPE_STRING example_manifest_h \<and>
                            string_id ?m (md_data e) = 1)"
      by (auto simp: example_manifest_h_def)
    with iff g show ?thesis by simp
  qed
  let ?m = "memory_of manifest_two_strings"
  let ?e1 = "\<lparr>md_size = 8, md_data = 4, md_type = 4\<rparr>"
  let ?e2 = "\<lparr>md_size = 8, md_data = 12, md_type = 4\<rparr>"
  let ?P = "\<lambda>e. md_type e = GREYBUS_TYPE_STRING example_manifest_h \<and> string_id ?m (md_data e) = 1"
  have P1: "?P ?e1" and P2: "?P ?e2"
    by (simp_all add: example_manifest_h_def layout_defs memory_of_def manifest_two_strings_def)
  have copy: "(map (\<lambda>i. ?m (string_string ?m (md_data ?e2) + i))
                 [0..<unat (string_length ?m (md_data ?e2)) + 1])
               [unat (string_length ?m (md_data ?e2)) := 0] = [66, 0]"
    by (simp add: layout_defs memory_of_def manifest_two_strings_def
        upt_rec [of 0] upt_rec [of 1])
  have shape: "ds1 = [] \<and> ds2 = [?e2]"
    if split: "[?e1, ?e2] = ds1 @ d # ds2" and no: "\<forall>e\<in>set ds1. \<not> ?P e"
    for ds1 d ds2
  proof (cases ds1)
    case Nil
    with split show ?thesis by simp
  next
    case (Cons a as)
    with split have "a = ?e1" by simp
    with Cons no P1 show ?thesis by simp
  qed
  have B: "gb_string_get example_manifest_h ?m 1
       (mstate_init\<lparr>manifest_descs := [?e1, ?e2], allocated := 2\<rparr>) =
     (Inr (Some [65, 0]), mstate_init\<lparr>manifest_descs := [?e2], allocated := 2\<rparr>) \<and>
     fst (gb_string_get example_manifest_h ?m 1
       (mstate_init\<lparr>manifest_descs := [?e2], allocated := 2\<rparr>)) = Inr (Some [66, 0])"
  proof -
    let ?s = "mstate_init\<lparr>manifest_descs := [?e1, ?e2], allocated := 2\<rparr>"
    let ?s1 = "mstate_init\<lparr>manifest_descs := [?e2], allocated := 2\<rparr>"
    have g: "gb_string_get example_manifest_h ?m 1 ?s = (Inr (Some [65, 0]), ?s1)"
      by (simp add: gb_string_get_def kmalloc_def kfree_def release_manifest_descriptor_def
          layout_defs memory_of_def manifest_two_strings_def example_manifest_h_def
          mstate_init_def Let_def upt_rec [of 0] upt_rec [of 1])
    have k: "fst (kmalloc ?s1)" by (simp add: kmalloc_def mstate_init_def)
    from string_descriptor_consumed [OF n g]
    obtain ds1 d ds2 where split: "manifest_descs ?s = ds1 @ d # ds2"
      and no: "\<forall>e\<in>set ds1. \<not> ?P e"
      and found: "(\<exists>e\<in>set ds2. ?P e) \<and> fst (kmalloc ?s1) \<longrightarrow>
        (\<exists>da d' db. ds2 = da @ d' # db \<and> ?P d' \<and> (\<forall>e\<in>set da. \<not> ?P e) \<and>
           fst (gb_string_get example_manifest_h ?m 1 ?s1) =
             Inr (Some ((map (\<lambda>i. ?m (string_string ?m (md_data d') + i))
                           [0..<unat (string_length ?m (md_data d')) + 1])
                         [unat (string_length ?m (md_data d')) := 0])))"
      by blast
    from split have "[?e1, ?e2] = ds1 @ d # ds2" by (simp add: mstate_init_def)
    from shape [OF this no] have ds2: "ds2 = [?e2]" by simp
    with P2 k found obtain da d' db where s2: "ds2 = da @ d' # db"
      and noda: "\<forall>e\<in>set da. \<not> ?P e"
      and res: "fst (gb_string_get example_manifest_h ?m 1 ?s1) =
             Inr (Some ((map (\<lambda>i. ?m (string_string ?m (md_data d') + i))
                           [0..<unat (string_length ?m (md_data d')) + 1])
                         [unat (string_length ?m (md_data d')) := 0]))"
      by auto
    from s2 ds2 have "d' = ?e2"
      by (cases da) (simp_all add: Cons_eq_append_conv)
    with res copy g show ?thesis by simp
  qed
  have C: "gb_string_get example_manifest_h ?m 1
       (mstate_init\<lparr>manifest_descs := [?e1, ?e2], kmalloc_results := [True, False],
          allocated := 2\<rparr>) =
     (Inr (Some [65, 0]),
      mstate_init\<lparr>manifest_descs := [?e2], kmalloc_results := [False], allocated := 2\<rparr>) \<and>
     fst (gb_string_get example_manifest_h ?m 1
       (mstate_init\<lparr>manifest_descs := [?e2], kmalloc_results := [False], allocated := 2\<rparr>))
       = Inl ENOMEM"
  proof -
    let ?s = "mstate_init\<lparr>manifest_descs := [?e1, ?e2], kmalloc_results := [True, False],
          allocated := 2\<rparr>"
    let ?s1 = "mstate_init\<lparr>manifest_descs := [?e2], kmalloc_results := [False],
          allocated := 2\<rparr>"
    have g: "gb_string_get example_manifest_h ?m 1 ?s = (Inr (Some [65, 0]), ?s1)"
      by (simp add: gb_string_get_def kmalloc_def kfree_def release_manifest_descriptor_def
          layout_defs memory_of_def manifest_two_strings_def example_manifest_h_def
          mstate_init_def Let_def upt_rec [of 0] upt_rec [of 1])
    have k: "\<not> fst (kmalloc ?s1)" by (simp add: kmalloc_def mstate_init_def)
    from string_descriptor_consumed [OF n g]
    obtain ds1 d ds2 where split: "manifest_descs ?s = ds1 @ d # ds2"
      and no: "\<forall>e\<in>set ds1. \<not> ?P e"
      and nomem: "(\<exists>e\<in>set ds2. ?P e) \<and> \<not> fst (kmalloc ?s1) \<longrightarrow>
        fst (gb_string_get example_manifest_h ?m 1 ?s1) = Inl ENOMEM"
      by blast
    from split have "[?e1, ?e2] = ds1 @ d # ds2" by (simp add: mstate_init_def)
    from shape [OF this no] have "ds2 = [?e2]" by simp
    with P2 k nomem have "fst (gb_string_get example_manifest_h ?m 1 ?s1) = Inl ENOMEM"
      by simp
    with g show ?thesis by simp
  qed
  from A B C show ?thesis by simp
qed

text \<open>
  Claim C6 says that a second \<open>gb_string_get\<close> of an id that was resolved once fails
  with \<open>ENOENT\<close>. In a manifest with two string descriptors of id 1, both accepted by
  the scan, the first call returns "A" and the second returns "B".
\<close>

theorem string_resolved_twice_counterexample:
  "\<exists>s1 s2 s3.
     scan_descriptors example_manifest_h (memory_of manifest_two_strings) 4 16 mstate_init
       = (True, s1) \<and>
     gb_string_get example_manifest_h (memory_of manifest_two_strings) 1 s1
       = (Inr (Some [65, 0]), s2) \<and>
     gb_string_get example_manifest_h (memory_of manifest_two_strings) 1 s2
       = (Inr (Some [66, 0]), s3)"
proof -
  let ?m = "memory_of manifest_two_strings"
  let ?d1 = "\<lparr>md_size = 8, md_data = 4, md_type = 4\<rparr>"
  let ?d2 = "\<lparr>md_size = 8, md_data = 12, md_type = 4\<rparr>"
  let ?sa = "mstate_init\<lparr>manifest_descs := [?d1], allocated := 1\<rparr>"
  let ?s1 = "mstate_init\<lparr>manifest_descs := [?d1, ?d2], allocated := 2\<rparr>"
  let ?s2 = "mstate_init\<lparr>manifest_descs := [?d2], allocated := 2\<rparr>"
  let ?s3 = "mstate_init\<lparr>manifest_descs := [], allocated := 2\<rparr>"
  have i1: "identify_descriptor example_manifest_h ?m 4 16 mstate_init = (Inr 8, ?sa)"
    by (simp add: identify_descriptor_def descriptor_type_switch_def kmalloc_def layout_defs
        memory_of_def manifest_two_strings_def example_manifest_h_def mstate_init_def Let_def)
  have i2: "identify_descriptor example_manifest_h ?m 12 8 ?sa = (Inr 8, ?s1)"
    by (simp add: identify_descriptor_def descriptor_type_switch_def kmalloc_def layout_defs
        memory_of_def manifest_two_strings_def example_manifest_h_def mstate_init_def Let_def)
  have sc: "scan_descriptors example_manifest_h ?m 4 16 mstate_init = (True, ?s1)"
    using i1 i2 by (simp add: scan_descriptors.simps [of _ _ 4 16]
        scan_descriptors.simps [of _ _ 12 8] scan_descriptors.simps [of _ _ _ 0]
        size_t_sub_def)
  have g1: "gb_string_get example_manifest_h ?m 1 ?s1 = (Inr (Some [65, 0]), ?s2)"
    by (simp add: gb_string_get_def kmalloc_def kfree_def release_manifest_descriptor_def
        layout_defs memory_of_def manifest_two_strings_def example_manifest_h_def
        mstate_init_def Let_def upt_rec [of 0] upt_rec [of 1])
  have g2: "gb_string_get example_manifest_h ?m 1 ?s2 = (Inr (Some [66, 0]), ?s3)"
    by (simp add: gb_string_get_def kmalloc_def kfree_def release_manifest_descriptor_def
        layout_defs memory_of_def manifest_two_strings_def example_manifest_h_def
        mstate_init_def Let_def upt_rec [of 0] upt_rec [of 1])
  from sc g1 g2 show ?thesis by blast
qed

lemma gb_string_get_balance:
  assumes "gb_string_get cfg mem sid s = (r, s1)"
  shows "allocated s1 - int (length (manifest_descs s1)) =
         allocated s - int (length (manifest_descs s)) +
           (case r of Inr (Some str) \<Rightarrow> 1 | _ \<Rightarrow> 0)"
proof -
  let ?P = "\<lambda>d. md_type d = GREYBUS_TYPE_STRING cfg \<and> string_id mem (md_data d) = sid"
  from gb_string_get_cases [OF assms]
  consider "r = Inr None" "s1 = s" | "r = Inl ENOENT" "s1 = s"
    | "r = Inl ENOMEM" "kmalloc s = (False, s1)"
    | d sk str where "r = Inr (Some str)" "kmalloc s = (True, sk)"
        "find ?P (manifest_descs s) = Some d" "s1 = release_manifest_descriptor d sk"
    by blast
  then show ?thesis
  proof cases
    case 1
    then show ?thesis by simp
  next
    case 2
    then show ?thesis by simp
  next
    case 3
    with kmalloc_effect [OF 3(2)] show ?thesis by simp
  next
    case 4
    from find_Some_split [OF 4(3)] have d: "d \<in> set (manifest_descs s)" by auto
    then obtain x xs where "manifest_descs s = x # xs"
      by (cases "manifest_descs s") auto
    then have "length (manifest_descs s) = Suc (length xs)" by simp
    then have "int (length (manifest_descs s) - 1) = int (length (manifest_descs s)) - 1"
      by simp
    with d have "int (length (remove1 d (manifest_descs s))) = int (length (manifest_descs s)) - 1"
      by (simp only: length_remove1 if_True)
    with kmalloc_effect [OF 4(2)] 4(1,4) show ?thesis
      by (simp add: release_manifest_descriptor_effect)
  qed
qed

text \<open>
  Claim C7, amended: when the resolution of the vendor string or of the product string
  fails, \<open>gb_manifest_parse_module\<close> returns a null pointer, whichever error was raised,
  and has freed the module record and the vendor string it had allocated: but for the
  entries of the index, as many objects are allocated after the call as before. A
  module record that is returned has both strings resolved and every field filled from
  the descriptor.
\<close>

theorem parse_module_string_failure:
  "(kmalloc s = (True, s1) \<and>
    gb_string_get cfg mem (module_vendor_stringid mem (md_data module_desc)) s1 = (rv, s2) \<and>
    gb_string_get cfg mem (module_product_stringid mem (md_data module_desc)) s2 = (rp, s3) \<and>
    ((\<exists>e. rv = Inl e) \<or> (\<exists>e. rp = Inl e)) \<longrightarrow>
      fst (gb_manifest_parse_module cfg mem module_desc s) = None \<and>
      allocated (snd (gb_manifest_parse_module cfg mem module_desc s))
        - int (length (manifest_descs (snd (gb_manifest_parse_module cfg mem module_desc s))))
        = allocated s - int (length (manifest_descs s))) \<and>
   (fst (gb_manifest_parse_module cfg mem module_desc s) = Some gmod \<longrightarrow>
      (\<exists>s1 v s2 p s3.
         kmalloc s = (True, s1) \<and>
         gb_string_get cfg mem (module_vendor_stringid mem (md_data module_desc)) s1
           = (Inr v, s2) \<and>
         gb_string_get cfg mem (module_product_stringid mem (md_data module_desc)) s2
           = (Inr p, s3) \<and>
         gmod = \<lparr>vendor = module_vendor mem (md_data module_desc),
                 product = module_product mem (md_data module_desc),
                 version = module_version mem (md_data module_desc),
                 serial_number = module_serial_number mem (md_data module_desc),
                 vendor_string = v, product_string = p\<rparr>))"
proof (intro conjI impI)
  assume a: "kmalloc s = (True, s1) \<and>
    gb_string_get cfg mem (module_vendor_stringid mem (md_data module_desc)) s1 = (rv, s2) \<and>
    gb_string_get cfg mem (module_product_stringid mem (md_data module_desc)) s2 = (rp, s3) \<and>
    ((\<exists>e. rv = Inl e) \<or> (\<exists>e. rp = Inl e))"
  then have k: "kmalloc s = (True, s1)"
    and gv: "gb_string_get cfg mem (module_vendor_stringid mem (md_data module_desc)) s1
               = (rv, s2)"
    and gp: "gb_string_get cfg mem (module_product_stringid mem (md_data module_desc)) s2
               = (rp, s3)"
    and fail: "(\<exists>e. rv = Inl e) \<or> (\<exists>e. rp = Inl e)"
    by simp_all
  let ?r = "gb_manifest_parse_module cfg mem module_desc s"
  from kmalloc_effect [OF k] have k': "allocated s1 = allocated s + 1"
    "manifest_descs s1 = manifest_descs s" by simp_all
  have "fst ?r = None \<and>
      allocated (snd ?r) - int (length (manifest_descs (snd ?r)))
        = allocated s - int (length (manifest_descs s))"
  proof (cases rv)
    case (Inl e)
    with k gv have "?r = (None, kfree (Some ()) s2)"
      by (simp add: gb_manifest_parse_module_def Let_def)
    with gb_string_get_balance [OF gv] Inl k' show ?thesis by (simp add: kfree_def)
  next
    case (Inr v)
    with fail obtain e where e: "rp = Inl e" by auto
    with k gv gp Inr have r: "?r = (None, kfree (Some ()) (kfree v s3))"
      by (simp add: gb_manifest_parse_module_def Let_def)
    show ?thesis
    proof (cases v)
      case None
      with gb_string_get_balance [OF gv] gb_string_get_balance [OF gp] Inr e k' r
      show ?thesis by (simp add: kfree_def)
    next
      case (Some str)
      with gb_string_get_balance [OF gv] gb_string_get_balance [OF gp] Inr e k' r
      show ?thesis by (simp add: kfree_def)
    qed
  qed
  then show "fst ?r = None"
    and "allocated (snd ?r) - int (length (manifest_descs (snd ?r)))
        = allocated s - int (length (manifest_descs s))"
    by simp_all
next
  assume "fst (gb_manifest_parse_module cfg mem module_desc s) = Some gmod"
  then show "\<exists>s1 v s2 p s3.
         kmalloc s = (True, s1) \<and>
         gb_string_get cfg mem (module_vendor_stringid mem (md_data module_desc)) s1
           = (Inr v, s2) \<and>
         gb_string_get cfg mem (module_product_stringid mem (md_data module_desc)) s2
           = (Inr p, s3) \<and>
         gmod = \<lparr>vendor = module_vendor mem (md_data module_desc),
                 product = module_product mem (md_data module_desc),
                 version = module_version mem (md_data module_desc),
                 serial_number = module_serial_number mem (md_data module_desc),
                 vendor_string = v, product_string = p\<rparr>"
    by (auto simp: gb_manifest_parse_module_def Let_def
        split: prod.splits bool.splits sum.splits)
qed

theorem parse_module_string_failure_witness:
  "gb_manifest_parse_module example_manifest_h (memory_of manifest_string_absent)
     \<lparr>md_size = 20, md_data = 4, md_type = 1\<rparr>
     (mstate_init\<lparr>manifest_descs := [\<lparr>md_size = 20, md_data = 4, md_type = 1\<rparr>],
        allocated := 1\<rparr>) =
     (None, mstate_init\<lparr>manifest_descs := [\<lparr>md_size = 20, md_data = 4, md_type = 1\<rparr>],
        allocated := 1\<rparr>) \<and>
   fst (gb_manifest_parse_module example_manifest_h (memory_of manifest_with_string)
     \<lparr>md_size = 20, md_data = 4, md_type = 1\<rparr>
     (mstate_init\<lparr>manifest_descs :=
        [\<lparr>md_size = 20, md_data = 4, md_type = 1\<rparr>, \<lparr>md_size = 8, md_data = 24, md_type = 4\<rparr>],
        allocated := 2\<rparr>)) =
     Some \<lparr>vendor = 0x1234, product = 0x5678, version = 1, serial_number = 0,
            vendor_string = Some [65, 0], product_string = None\<rparr>"
proof
  let ?m = "memory_of manifest_string_absent"
  let ?d = "\<lparr>md_size = 20, md_data = 4, md_type = 1\<rparr>"
  let ?s = "mstate_init\<lparr>manifest_descs := [?d], allocated := 1\<rparr>"
  let ?s1 = "mstate_init\<lparr>manifest_descs := [?d], allocated := 2\<rparr>"
  have ids: "module_vendor_stringid ?m (md_data ?d) = 1"
    "module_product_stringid ?m (md_data ?d) = 0"
    by (simp_all add: layout_defs memory_of_def manifest_string_absent_def)
  have k: "kmalloc ?s = (True, ?s1)" by (simp add: kmalloc_def mstate_init_def)
  have gv: "gb_string_get example_manifest_h ?m (module_vendor_stringid ?m (md_data ?d)) ?s1
              = (Inl ENOENT, ?s1)"
    unfolding ids by (simp add: gb_string_get_def example_manifest_h_def mstate_init_def)
  have gp: "gb_string_get example_manifest_h ?m (module_product_stringid ?m (md_data ?d)) ?s1
              = (Inr None, ?s1)"
    unfolding ids by (simp add: gb_string_get_def)
  have r: "gb_manifest_parse_module example_manifest_h ?m ?d ?s = (None, ?s)"
    using k gv by (simp add: gb_manifest_parse_module_def kfree_def Let_def mstate_init_def)
  from parse_module_string_failure [of ?s ?s1 example_manifest_h ?m ?d "Inl ENOENT" ?s1
      "Inr None" ?s1] k gv gp
  have "fst (gb_manifest_parse_module example_manifest_h ?m ?d ?s) = None" by simp
  with r show "gb_manifest_parse_module example_manifest_h ?m ?d ?s = (None, ?s)" by simp
next
  let ?m = "memory_of manifest_with_string"
  let ?d = "\<lparr>md_size = 20, md_data = 4, md_type = 1\<rparr>"
  let ?d2 = "\<lparr>md_size = 8, md_data = 24, md_type = 4\<rparr>"
  let ?s = "mstate_init\<lparr>manifest_descs := [?d, ?d2], allocated := 2\<rparr>"
  show "fst (gb_manifest_parse_module example_manifest_h ?m ?d ?s) =
     Some \<lparr>vendor = 0x1234, product = 0x5678, version = 1, serial_number = 0,
            vendor_string = Some [65, 0], product_string = None\<rparr>"
    by (simp add: gb_manifest_parse_module_def gb_string_get_def kmalloc_def kfree_def
        release_manifest_descriptor_def layout_defs le_value_8 memory_of_def
        manifest_with_string_def example_manifest_h_def mstate_init_def Let_def
        upt_rec [of 0] upt_rec [of 1])
qed

text \<open>
  Claim C7 says that \<open>gb_manifest_parse_module\<close> fails with the error that the string
  resolution raised. It returns a null pointer for every failure: for the manifest whose
  vendor string is absent, \<open>gb_string_get\<close> raises \<open>ENOENT\<close>; for the manifest whose
  vendor string cannot be copied for lack of memory, it raises \<open>ENOMEM\<close>; the result
  of \<open>gb_manifest_parse_module\<close> is the same in both.
\<close>

theorem string_error_not_passed_on_counterexample:
  "\<exists>sa sa' sb sb'.
     scan_descriptors example_manifest_h (memory_of manifest_string_absent) 4 20 mstate_init
       = (True, sa) \<and>
     kmalloc sa = (True, sa') \<and>
     fst (gb_string_get example_manifest_h (memory_of manifest_string_absent)
            (module_vendor_stringid (memory_of manifest_string_absent) 4) sa') = Inl ENOENT \<and>
     scan_descriptors example_manifest_h (memory_of manifest_with_string) 4 28
       (mstate_init\<lparr>kmalloc_results := [True, True, True, False]\<rparr>) = (True, sb) \<and>
     kmalloc sb = (True, sb') \<and>
     fst (gb_string_get example_manifest_h (memory_of manifest_with_string)
            (module_vendor_stringid (memory_of manifest_with_string) 4) sb') = Inl ENOMEM \<and>
     fst (gb_manifest_parse_module example_manifest_h (memory_of manifest_string_absent)
            \<lparr>md_size = 20, md_data = 4, md_type = 1\<rparr> sa) = None \<and>
     fst (gb_manifest_parse_module example_manifest_h (memory_of manifest_with_string)
            \<lparr>md_size = 20, md_data = 4, md_type = 1\<rparr> sb) = None"
proof -
  let ?ma = "memory_of manifest_string_absent"
  let ?mb = "memory_of manifest_with_string"
  let ?d = "\<lparr>md_size = 20, md_data = 4, md_type = 1\<rparr>"
  let ?d2 = "\<lparr>md_size = 8, md_data = 24, md_type = 4\<rparr>"
  let ?sa = "mstate_init\<lparr>manifest_descs := [?d], allocated := 1\<rparr>"
  let ?sa' = "mstate_init\<lparr>manifest_descs := [?d], allocated := 2\<rparr>"
  let ?s0 = "mstate_init\<lparr>kmalloc_results := [True, True, True, False]\<rparr>"
  let ?sm = "mstate_init\<lparr>manifest_descs := [?d], kmalloc_results := [True, True, False],
               allocated := 1\<rparr>"
  let ?sb = "mstate_init\<lparr>manifest_descs := [?d, ?d2], kmalloc_results := [True, False],
               allocated := 2\<rparr>"
  let ?sb' = "mstate_init\<lparr>manifest_descs := [?d, ?d2], kmalloc_results := [False],
               allocated := 3\<rparr>"
  have ia: "identify_descriptor example_manifest_h ?ma 4 20 mstate_init = (Inr 20, ?sa)"
    by (simp add: identify_descriptor_def descriptor_type_switch_def kmalloc_def layout_defs
        memory_of_def manifest_string_absent_def example_manifest_h_def mstate_init_def Let_def)
  have sca: "scan_descriptors example_manifest_h ?ma 4 20 mstate_init = (True, ?sa)"
    using ia by (simp add: scan_descriptors.simps [of _ _ 4 20]
        scan_descriptors.simps [of _ _ _ 0] size_t_sub_def)
  have ka: "kmalloc ?sa = (True, ?sa')" by (simp add: kmalloc_def mstate_init_def)
  have ida: "module_vendor_stringid ?ma 4 = 1"
    by (simp add: layout_defs memory_of_def manifest_string_absent_def)
  have ga: "gb_string_get example_manifest_h ?ma 1 ?sa' = (Inl ENOENT, ?sa')"
    by (simp add: gb_string_get_def example_manifest_h_def mstate_init_def)
  have pa: "fst (gb_manifest_parse_module example_manifest_h ?ma ?d ?sa) = None"
    using ka ga ida by (simp add: gb_manifest_parse_module_def Let_def)
  have ib1: "identify_descriptor example_manifest_h ?mb 4 28 ?s0 = (Inr 20, ?sm)"
    by (simp add: identify_descriptor_def descriptor_type_switch_def kmalloc_def layout_defs
        memory_of_def manifest_with_string_def example_manifest_h_def mstate_init_def Let_def)
  have ib2: "identify_descriptor example_manifest_h ?mb 24 8 ?sm = (Inr 8, ?sb)"
    by (simp add: identify_descriptor_def descriptor_type_switch_def kmalloc_def layout_defs
        memory_of_def manifest_with_string_def example_manifest_h_def mstate_init_def Let_def)
  have scb: "scan_descriptors example_manifest_h ?mb 4 28 ?s0 = (True, ?sb)"
    using ib1 ib2 by (simp add: scan_descriptors.simps [of _ _ 4 28]
        scan_descriptors.simps [of _ _ 24 8] scan_descriptors.simps [of _ _ _ 0]
        size_t_sub_def)
  have kb: "kmalloc ?sb = (True, ?sb')" by (simp add: kmalloc_def mstate_init_def)
  have idb: "module_vendor_stringid ?mb 4 = 1"
    by (simp add: layout_defs memory_of_def manifest_with_string_def)
  have gbf: "gb_string_get example_manifest_h ?mb 1 ?sb' =
      (Inl ENOMEM, mstate_init\<lparr>manifest_descs := [?d, ?d2], kmalloc_results := [],
               allocated := 3\<rparr>)"
    by (simp add: gb_string_get_def kmalloc_def layout_defs memory_of_def
        manifest_with_string_def example_manifest_h_def mstate_init_def)
  then have gb: "fst (gb_string_get example_manifest_h ?mb 1 ?sb') = Inl ENOMEM" by simp
  have pb: "fst (gb_manifest_parse_module example_manifest_h ?mb ?d ?sb) = None"
    using kb gbf idb by (simp add: gb_manifest_parse_module_def Let_def)
  from sca ka ga ida scb kb gb idb pa pb show ?thesis by auto
qed

end
